theory Spec2Isabelle
  imports Complex_Main
begin

section \<open>Numbers, vectors and errors\<close>

text \<open>
  The notebook \<^verbatim>\<open>07_stochastic_gradient_descent.ipynb\<close> computes with numpy
  arrays of 64-bit floats. The embedding idealises a float as a \<^typ>\<open>real\<close>: every
  statement below is about exact real arithmetic, and says nothing about rounding,
  overflow, infinities or NaN. Where numpy would leave the reals (the square root of a
  negative number, a division by zero) the model stops with the outcome \<open>NotFinite\<close>.

  A one-dimensional array (\<open>x\<close>, \<open>y\<close>, the residuals) is a \<^typ>\<open>real list\<close>. The
  parameter vector \<open>w\<close> and every gradient are arrays of exactly two entries,
  \<open>np.array([a, b])\<close>: a pair.
\<close>

type_synonym vec2 = "real \<times> real"

datatype error = ValueError | IndexError | NotFinite

definition smul :: "real \<Rightarrow> vec2 \<Rightarrow> vec2" where
  \<comment> \<open>scalar * array\<close>
  "smul c v = (c * fst v, c * snd v)"

definition vadd :: "vec2 \<Rightarrow> vec2 \<Rightarrow> vec2" where
  "vadd a b = (fst a + fst b, snd a + snd b)"

definition vsub :: "vec2 \<Rightarrow> vec2 \<Rightarrow> vec2" where
  "vsub a b = (fst a - fst b, snd a - snd b)"

definition vsquare :: "vec2 \<Rightarrow> vec2" where
  \<comment> \<open>array ** 2, entry by entry\<close>
  "vsquare a = (fst a ^ 2, snd a ^ 2)"

definition broadcast :: "(real \<Rightarrow> real \<Rightarrow> real) \<Rightarrow> real list \<Rightarrow> real list \<Rightarrow> error + real list" where
  \<comment> \<open>A binary operation on two one-dimensional arrays, by numpy's broadcasting rule:
      equal lengths combine entry by entry, an array of length one is stretched to the
      other's length, and any other pair of shapes raises ValueError.\<close>
  "broadcast f a b =
     (if length a = length b then Inr (map2 f a b)
      else if length a = 1 then Inr (map (f (hd a)) b)
      else if length b = 1 then Inr (map (\<lambda>u. f u (hd b)) a)
      else Inl ValueError)"

definition py_sum :: "real list \<Rightarrow> real" where
  \<comment> \<open>Python's builtin \<open>sum\<close>: starts from 0 and adds the entries from the left.\<close>
  "py_sum a = foldl (+) 0 a"

section \<open>The cost function and its gradient\<close>

text \<open>
  \<^verbatim>\<open>
  def L(w,x,y):
      return 1./2.*sum((y - w[0] - w[1]*x)**2)

  def G(w,x,y):
      return np.array([-sum(y - w[0] - w[1]*x),-sum((y - w[0] - w[1]*x)*x)])
  \<close>
  The expression \<open>y - w[0] - w[1]*x\<close> stands three times in the source; it is
  \<open>residual\<close> here. Python reads it as \<open>(y - w[0]) - (w[1]*x)\<close>: two
  scalar-with-array operations, then one array-with-array subtraction, which
  broadcasts.
\<close>

definition residual :: "vec2 \<Rightarrow> real list \<Rightarrow> real list \<Rightarrow> error + real list" where
  "residual w x y = broadcast (-) (map (\<lambda>v. v - fst w) y) (map (\<lambda>v. snd w * v) x)"

definition L :: "vec2 \<Rightarrow> real list \<Rightarrow> real list \<Rightarrow> error + real" where
  "L w x y =
     (case residual w x y of
        Inl e \<Rightarrow> Inl e
      | Inr r \<Rightarrow> Inr (1 / 2 * py_sum (map (\<lambda>v. v ^ 2) r)))"

definition G :: "vec2 \<Rightarrow> real list \<Rightarrow> real list \<Rightarrow> error + vec2" where
  "G w x y =
     (case residual w x y of
        Inl e \<Rightarrow> Inl e
      | Inr r \<Rightarrow>
          (case broadcast (*) r x of
             Inl e \<Rightarrow> Inl e
           | Inr rx \<Rightarrow> Inr (- py_sum r, - py_sum rx)))"

section \<open>Arrays as objects\<close>

text \<open>
  \<open>w\<close> is one array object that every loop updates in place (\<open>w -= ...\<close>), and
  the trajectories are Python lists of arrays made by \<open>w.copy()\<close>. What a trajectory
  holds at the end therefore depends on which arrays share storage, so the model keeps
  an explicit store: a \<open>heap\<close> is the list of all two-entry arrays allocated so far and
  a \<open>ref\<close> is an index into it. References come only from \<open>np_array\<close> and
  \<open>copy\<close>, so a reference in use is always in range.
\<close>

type_synonym ref = nat
type_synonym heap = "vec2 list"

definition np_array :: "heap \<Rightarrow> vec2 \<Rightarrow> heap \<times> ref" where
  \<comment> \<open>\<open>np.array([a, b])\<close>: a new object\<close>
  "np_array h v = (h @ [v], length h)"

definition copy :: "heap \<Rightarrow> ref \<Rightarrow> heap \<times> ref" where
  \<comment> \<open>\<open>w.copy()\<close>: a new object with the contents \<open>w\<close> has now\<close>
  "copy h r = np_array h (h ! r)"

definition isub :: "heap \<Rightarrow> ref \<Rightarrow> vec2 \<Rightarrow> heap" where
  \<comment> \<open>\<open>w -= v\<close>: the object \<open>w\<close> refers to is overwritten\<close>
  "isub h r v = h[r := vsub (h ! r) v]"

definition np_array_of :: "heap \<Rightarrow> ref list \<Rightarrow> vec2 list" where
  \<comment> \<open>\<open>np.array(w_batch)\<close>: the contents the listed arrays have at that moment\<close>
  "np_array_of h rs = map (\<lambda>r. h ! r) rs"

section \<open>Batch gradient descent\<close>

text \<open>
  \<^verbatim>\<open>
  w_batch = [w.copy()]
  eta = 0.01
  for i in range(10000):
      w -= eta*G(w,x,y)
      w_batch.append(w.copy())
  w_batch = np.array(w_batch)
  \<close>
  The notebook fixes \<open>eta = 0.01\<close>, 10000 iterations and \<open>w = np.array([0.,0.])\<close>
  (from an earlier cell); here they are the parameters \<open>eta\<close>, \<open>epochs\<close> and
  \<open>w0\<close>. The result is the final contents of \<open>w\<close> and the array \<open>w_batch\<close>.
\<close>

fun batch_loop :: "nat \<Rightarrow> real \<Rightarrow> real list \<Rightarrow> real list \<Rightarrow> ref \<Rightarrow> heap \<times> ref list \<Rightarrow> error + heap \<times> ref list" where
  "batch_loop 0 eta x y w s = Inr s"
| "batch_loop (Suc n) eta x y w (h, w_batch) =
     (case G (h ! w) x y of
        Inl e \<Rightarrow> Inl e
      | Inr g \<Rightarrow>
          (let h1 = isub h w (smul eta g);
               (h2, c) = copy h1 w
           in batch_loop n eta x y w (h2, w_batch @ [c])))"

definition batch_gradient_descent :: "nat \<Rightarrow> real \<Rightarrow> real list \<Rightarrow> real list \<Rightarrow> vec2 \<Rightarrow> error + vec2 \<times> vec2 list" where
  "batch_gradient_descent epochs eta x y w0 =
     (let (h0, w) = np_array [] w0;
          (h1, c) = copy h0 w
      in case batch_loop epochs eta x y w (h1, [c]) of
           Inl e \<Rightarrow> Inl e
         | Inr (h, w_batch) \<Rightarrow> Inr (h ! w, np_array_of h w_batch))"

section \<open>The random source\<close>

text \<open>
  Every epoch of the per-point loops calls
  \<open>np.random.choice(range(len(x)),len(x),replace=False)\<close>, which reads and advances
  numpy's global generator. numpy is not part of the notebook, so the call is a
  parameter \<open>choice\<close>: for the generator state \<open>rng\<close>, \<open>choice rng m\<close> is the array
  drawn for \<open>range(m)\<close> together with the state the generator is left in. What numpy
  promises of the draw is the predicate \<open>permutes\<close>: every index below \<open>m\<close> once.
  \<open>getitem\<close> is \<open>x[j]\<close> for an index \<open>j\<close> that is not negative.
\<close>

type_synonym 'g chooser = "'g \<Rightarrow> nat \<Rightarrow> nat list \<times> 'g"

definition permutes :: "nat list \<Rightarrow> nat \<Rightarrow> bool" where
  "permutes js m = (distinct js \<and> set js = {0..<m})"

definition getitem :: "real list \<Rightarrow> nat \<Rightarrow> error + real" where
  "getitem a j = (if j < length a then Inr (a ! j) else Inl IndexError)"

section \<open>Stochastic gradient descent\<close>

text \<open>
  \<^verbatim>\<open>
  w = np.array([0.,0.])
  w_stoch = [w.copy()]
  w_epoch = [w.copy()]
  eta = 0.01
  for i in range(10000):
      random_indices = np.random.choice(range(len(x)),len(x),replace=False)
      for j in random_indices:
          x_sample = x[j]
          y_sample = y[j]
          w -= eta*G(w,np.array([x_sample]),np.array([y_sample]))
          w_stoch.append(w.copy())
      w_epoch.append(w.copy())
  w_stoch = np.array(w_stoch)
  w_epoch = np.array(w_epoch)
  \<close>
  As for the batch loop, the initial contents of \<open>w\<close>, \<open>eta\<close> and the number of
  epochs are parameters. A run returns the final contents of \<open>w\<close>, the per-step
  trajectory, the per-epoch trajectory and the generator's state.
\<close>

type_synonym 'g run = "vec2 \<times> vec2 list \<times> vec2 list \<times> 'g"

fun sgd_inner :: "real \<Rightarrow> real list \<Rightarrow> real list \<Rightarrow> ref \<Rightarrow> nat list \<Rightarrow> heap \<times> ref list \<Rightarrow> error + heap \<times> ref list" where
  "sgd_inner eta x y w [] s = Inr s"
| "sgd_inner eta x y w (j # js) (h, w_stoch) =
     (case getitem x j of
        Inl e \<Rightarrow> Inl e
      | Inr x_sample \<Rightarrow>
     (case getitem y j of
        Inl e \<Rightarrow> Inl e
      | Inr y_sample \<Rightarrow>
     (case G (h ! w) [x_sample] [y_sample] of
        Inl e \<Rightarrow> Inl e
      | Inr g \<Rightarrow>
          (let h1 = isub h w (smul eta g);
               (h2, c) = copy h1 w
           in sgd_inner eta x y w js (h2, w_stoch @ [c])))))"

fun sgd_epochs :: "'g chooser \<Rightarrow> nat \<Rightarrow> real \<Rightarrow> real list \<Rightarrow> real list \<Rightarrow> ref \<Rightarrow> heap \<times> ref list \<times> ref list \<times> 'g \<Rightarrow> error + heap \<times> ref list \<times> ref list \<times> 'g" where
  "sgd_epochs choice 0 eta x y w s = Inr s"
| "sgd_epochs choice (Suc n) eta x y w (h, w_stoch, w_epoch, rng) =
     (let (random_indices, rng1) = choice rng (length x)
      in case sgd_inner eta x y w random_indices (h, w_stoch) of
           Inl e \<Rightarrow> Inl e
         | Inr (h1, w_stoch1) \<Rightarrow>
             (let (h2, c) = copy h1 w
              in sgd_epochs choice n eta x y w (h2, w_stoch1, w_epoch @ [c], rng1)))"

definition stochastic_gradient_descent :: "'g chooser \<Rightarrow> 'g \<Rightarrow> nat \<Rightarrow> real \<Rightarrow> real list \<Rightarrow> real list \<Rightarrow> vec2 \<Rightarrow> error + 'g run" where
  "stochastic_gradient_descent choice rng epochs eta x y w0 =
     (let (h0, w) = np_array [] w0;
          (h1, c1) = copy h0 w;
          (h2, c2) = copy h1 w
      in case sgd_epochs choice epochs eta x y w (h2, [c1], [c2], rng) of
           Inl e \<Rightarrow> Inl e
         | Inr (h, w_stoch, w_epoch, rng') \<Rightarrow>
             Inr (h ! w, np_array_of h w_stoch, np_array_of h w_epoch, rng'))"

section \<open>Momentum\<close>

text \<open>
  \<^verbatim>\<open>
  w = np.array([0.,0.])
  w_momen = [w.copy()]
  w_mepoch = [w.copy()]
  eta = 0.01
  momentum = 0.9
  delta_w = 0.0
  for i in range(10000):
      random_indices = np.random.choice(range(len(x)),len(x),replace=False)
      for j in random_indices:
          x_sample = x[j]
          y_sample = y[j]
          delta_w = momentum*delta_w + (1.-momentum)*G(w,np.array([x_sample]),np.array([y_sample]))
          w -= eta*delta_w
          w_momen.append(w.copy())
      w_mepoch.append(w.copy())
  w_momen = np.array(w_momen)
  w_mepoch = np.array(w_mepoch)
  \<close>
  \<open>delta_w\<close> is rebound to a new array at every step and never updated in place, so
  it is carried as a value. It starts as the scalar \<open>0.0\<close>, which the first
  assignment broadcasts against the gradient: the pair \<open>(0, 0)\<close>.
\<close>

fun momentum_inner :: "real \<Rightarrow> real \<Rightarrow> real list \<Rightarrow> real list \<Rightarrow> ref \<Rightarrow> nat list \<Rightarrow> heap \<times> ref list \<times> vec2 \<Rightarrow> error + heap \<times> ref list \<times> vec2" where
  "momentum_inner eta momentum x y w [] s = Inr s"
| "momentum_inner eta momentum x y w (j # js) (h, w_momen, delta_w) =
     (case getitem x j of
        Inl e \<Rightarrow> Inl e
      | Inr x_sample \<Rightarrow>
     (case getitem y j of
        Inl e \<Rightarrow> Inl e
      | Inr y_sample \<Rightarrow>
     (case G (h ! w) [x_sample] [y_sample] of
        Inl e \<Rightarrow> Inl e
      | Inr g \<Rightarrow>
          (let delta_w1 = vadd (smul momentum delta_w) (smul (1 - momentum) g);
               h1 = isub h w (smul eta delta_w1);
               (h2, c) = copy h1 w
           in momentum_inner eta momentum x y w js (h2, w_momen @ [c], delta_w1)))))"

fun momentum_epochs :: "'g chooser \<Rightarrow> nat \<Rightarrow> real \<Rightarrow> real \<Rightarrow> real list \<Rightarrow> real list \<Rightarrow> ref \<Rightarrow> heap \<times> ref list \<times> ref list \<times> vec2 \<times> 'g \<Rightarrow> error + heap \<times> ref list \<times> ref list \<times> vec2 \<times> 'g" where
  "momentum_epochs choice 0 eta momentum x y w s = Inr s"
| "momentum_epochs choice (Suc n) eta momentum x y w (h, w_momen, w_mepoch, delta_w, rng) =
     (let (random_indices, rng1) = choice rng (length x)
      in case momentum_inner eta momentum x y w random_indices (h, w_momen, delta_w) of
           Inl e \<Rightarrow> Inl e
         | Inr (h1, w_momen1, delta_w1) \<Rightarrow>
             (let (h2, c) = copy h1 w
              in momentum_epochs choice n eta momentum x y w
                   (h2, w_momen1, w_mepoch @ [c], delta_w1, rng1)))"

definition momentum_gradient_descent :: "'g chooser \<Rightarrow> 'g \<Rightarrow> nat \<Rightarrow> real \<Rightarrow> real \<Rightarrow> real list \<Rightarrow> real list \<Rightarrow> vec2 \<Rightarrow> error + 'g run" where
  "momentum_gradient_descent choice rng epochs eta momentum x y w0 =
     (let (h0, w) = np_array [] w0;
          (h1, c1) = copy h0 w;
          (h2, c2) = copy h1 w
      in case momentum_epochs choice epochs eta momentum x y w (h2, [c1], [c2], (0, 0), rng) of
           Inl e \<Rightarrow> Inl e
         | Inr (h, w_momen, w_mepoch, delta_w, rng') \<Rightarrow>
             Inr (h ! w, np_array_of h w_momen, np_array_of h w_mepoch, rng'))"

section \<open>RMSprop\<close>

text \<open>
  \<^verbatim>\<open>
  w = np.array([0.,0.])
  w_momen = [w.copy()]
  w_mepoch = [w.copy()]
  eta = 0.0001
  momentum = 0.9
  g2 = 0
  for i in range(10000):
      random_indices = np.random.choice(range(len(x)),len(x),replace=False)
      for j in random_indices:
          x_sample = x[j]
          y_sample = y[j]
          gradient = G(w,np.array([x_sample]),np.array([y_sample]))
          g2 = momentum*g2 + (1.-momentum)*gradient**2
          w -= eta*gradient/(np.sqrt(g2) + 1e-8)
          w_momen.append(w.copy())
      w_mepoch.append(w.copy())
  w_momen = np.array(w_momen)
  \<close>
  \<open>g2\<close> is a value like \<open>delta_w\<close>, starting as the scalar \<open>0\<close>: the pair
  \<open>(0, 0)\<close>. \<open>np.sqrt\<close> of a negative entry and a division by a zero entry give NaN
  or an infinity in numpy (with a warning, not an exception); no real number stands
  for them, so the model ends the run with \<open>NotFinite\<close> there. The part
  \<open>np.sqrt(g2) + 1e-8\<close> of the update is \<open>rms_denominator\<close>. The cell leaves
  \<open>w_mepoch\<close> a list of arrays; the run returns their contents.
\<close>

definition np_sqrt :: "vec2 \<Rightarrow> error + vec2" where
  "np_sqrt a =
     (if fst a < 0 \<or> snd a < 0 then Inl NotFinite else Inr (sqrt (fst a), sqrt (snd a)))"

definition vdiv :: "vec2 \<Rightarrow> vec2 \<Rightarrow> error + vec2" where
  "vdiv a b =
     (if fst b = 0 \<or> snd b = 0 then Inl NotFinite else Inr (fst a / fst b, snd a / snd b))"

definition rms_g2 :: "real \<Rightarrow> vec2 \<Rightarrow> vec2 \<Rightarrow> vec2" where
  \<comment> \<open>\<open>momentum*g2 + (1.-momentum)*gradient**2\<close>\<close>
  "rms_g2 momentum g2 gradient = vadd (smul momentum g2) (smul (1 - momentum) (vsquare gradient))"

definition rms_denominator :: "vec2 \<Rightarrow> error + vec2" where
  \<comment> \<open>\<open>np.sqrt(g2) + 1e-8\<close>\<close>
  "rms_denominator g2 =
     (case np_sqrt g2 of
        Inl e \<Rightarrow> Inl e
      | Inr s \<Rightarrow> Inr (fst s + 1 / 10 ^ 8, snd s + 1 / 10 ^ 8))"

definition rms_update :: "real \<Rightarrow> vec2 \<Rightarrow> vec2 \<Rightarrow> error + vec2" where
  \<comment> \<open>\<open>eta*gradient/(np.sqrt(g2) + 1e-8)\<close>\<close>
  "rms_update eta gradient g2 =
     (case rms_denominator g2 of
        Inl e \<Rightarrow> Inl e
      | Inr d \<Rightarrow> vdiv (smul eta gradient) d)"

fun rmsprop_inner :: "real \<Rightarrow> real \<Rightarrow> real list \<Rightarrow> real list \<Rightarrow> ref \<Rightarrow> nat list \<Rightarrow> heap \<times> ref list \<times> vec2 \<Rightarrow> error + heap \<times> ref list \<times> vec2" where
  "rmsprop_inner eta momentum x y w [] s = Inr s"
| "rmsprop_inner eta momentum x y w (j # js) (h, w_momen, g2) =
     (case getitem x j of
        Inl e \<Rightarrow> Inl e
      | Inr x_sample \<Rightarrow>
     (case getitem y j of
        Inl e \<Rightarrow> Inl e
      | Inr y_sample \<Rightarrow>
     (case G (h ! w) [x_sample] [y_sample] of
        Inl e \<Rightarrow> Inl e
      | Inr gradient \<Rightarrow>
          (let g2' = rms_g2 momentum g2 gradient
           in case rms_update eta gradient g2' of
                Inl e \<Rightarrow> Inl e
              | Inr u \<Rightarrow>
                  (let h1 = isub h w u;
                       (h2, c) = copy h1 w
                   in rmsprop_inner eta momentum x y w js (h2, w_momen @ [c], g2'))))))"

fun rmsprop_epochs :: "'g chooser \<Rightarrow> nat \<Rightarrow> real \<Rightarrow> real \<Rightarrow> real list \<Rightarrow> real list \<Rightarrow> ref \<Rightarrow> heap \<times> ref list \<times> ref list \<times> vec2 \<times> 'g \<Rightarrow> error + heap \<times> ref list \<times> ref list \<times> vec2 \<times> 'g" where
  "rmsprop_epochs choice 0 eta momentum x y w s = Inr s"
| "rmsprop_epochs choice (Suc n) eta momentum x y w (h, w_momen, w_mepoch, g2, rng) =
     (let (random_indices, rng1) = choice rng (length x)
      in case rmsprop_inner eta momentum x y w random_indices (h, w_momen, g2) of
           Inl e \<Rightarrow> Inl e
         | Inr (h1, w_momen1, g2') \<Rightarrow>
             (let (h2, c) = copy h1 w
              in rmsprop_epochs choice n eta momentum x y w
                   (h2, w_momen1, w_mepoch @ [c], g2', rng1)))"

definition rmsprop :: "'g chooser \<Rightarrow> 'g \<Rightarrow> nat \<Rightarrow> real \<Rightarrow> real \<Rightarrow> real list \<Rightarrow> real list \<Rightarrow> vec2 \<Rightarrow> error + 'g run" where
  "rmsprop choice rng epochs eta momentum x y w0 =
     (let (h0, w) = np_array [] w0;
          (h1, c1) = copy h0 w;
          (h2, c2) = copy h1 w
      in case rmsprop_epochs choice epochs eta momentum x y w (h2, [c1], [c2], (0, 0), rng) of
           Inl e \<Rightarrow> Inl e
         | Inr (h, w_momen, w_mepoch, g2, rng') \<Rightarrow>
             Inr (h ! w, np_array_of h w_momen, np_array_of h w_mepoch, rng'))"

section \<open>The dataset\<close>

text \<open>
  \<^verbatim>\<open>
  # Create constantly-spaced x-values
  x = np.linspace(0,1,21)

  # Create a linear function of $x$ with slope 1, intercept 1, and normally distributed error with sd=1
  y = x + np.random.randn(len(x))*0.1 + 1.0
  \<close>
  \<open>np.linspace(start, stop, num)\<close> is numpy's: \<open>num\<close> points from \<open>start\<close> in steps of
  \<open>(stop - start) / (num - 1)\<close>. \<open>np.random.randn(n)\<close> is a parameter like \<open>choice\<close>:
  \<open>randn rng n\<close> is the array of draws and the generator's next state.
\<close>

definition linspace :: "real \<Rightarrow> real \<Rightarrow> nat \<Rightarrow> real list" where
  "linspace start stop num =
     map (\<lambda>i. start + real i * ((stop - start) / real (num - 1))) [0..<num]"

definition dataset :: "('g \<Rightarrow> nat \<Rightarrow> real list \<times> 'g) \<Rightarrow> 'g \<Rightarrow> error + real list \<times> real list \<times> 'g" where
  "dataset randn rng =
     (let x = linspace 0 1 21;
          (z, rng1) = randn rng (length x)
      in case broadcast (+) x (map (\<lambda>v. v * (1 / 10)) z) of
           Inl e \<Rightarrow> Inl e
         | Inr s \<Rightarrow> Inr (x, map (\<lambda>v. v + 1) s, rng1))"

section \<open>The loops on values\<close>

text \<open>
  The definitions above are the notebook's cells. The ones in this section are not in the
  notebook: they are the same loops read without the store, on the values of \<open>w\<close>, and
  serve to state and prove what the cells compute. A \<open>body\<close> is one pass of a loop's
  inner block: from the contents of \<open>w\<close>, the loop's accumulator and the sampled index
  it gives the new contents of \<open>w\<close> and the new accumulator, or the error the block
  raises. \<open>steps_v\<close> runs a body over a list of indices and appends every new value of
  \<open>w\<close> to the trajectory; \<open>epochs_v\<close> draws the indices of each epoch and appends the
  value of \<open>w\<close> at the end of each epoch to the second trajectory.
\<close>

type_synonym ('i, 'a) body = "vec2 \<Rightarrow> 'a \<Rightarrow> 'i \<Rightarrow> error + vec2 \<times> 'a"

fun steps_v :: "('i, 'a) body \<Rightarrow> 'i list \<Rightarrow> vec2 \<times> vec2 list \<times> 'a \<Rightarrow> error + vec2 \<times> vec2 list \<times> 'a" where
  "steps_v body [] s = Inr s"
| "steps_v body (j # js) (wv, tr, a) =
     (case body wv a j of
        Inl e \<Rightarrow> Inl e
      | Inr (wv', a') \<Rightarrow> steps_v body js (wv', tr @ [wv'], a'))"

fun epochs_v :: "'g chooser \<Rightarrow> (nat, 'a) body \<Rightarrow> nat \<Rightarrow> nat \<Rightarrow> vec2 \<times> vec2 list \<times> vec2 list \<times> 'a \<times> 'g \<Rightarrow> error + vec2 \<times> vec2 list \<times> vec2 list \<times> 'a \<times> 'g" where
  "epochs_v choice body m 0 s = Inr s"
| "epochs_v choice body m (Suc n) (wv, tr, ep, a, rng) =
     (let (random_indices, rng1) = choice rng m
      in case steps_v body random_indices (wv, tr, a) of
           Inl e \<Rightarrow> Inl e
         | Inr (wv1, tr1, a1) \<Rightarrow> epochs_v choice body m n (wv1, tr1, ep @ [wv1], a1, rng1))"

definition batch_body :: "real \<Rightarrow> real list \<Rightarrow> real list \<Rightarrow> (unit, unit) body" where
  "batch_body eta x y wv a i =
     (case G wv x y of Inl e \<Rightarrow> Inl e | Inr g \<Rightarrow> Inr (vsub wv (smul eta g), ()))"

definition sgd_body :: "real \<Rightarrow> real list \<Rightarrow> real list \<Rightarrow> (nat, unit) body" where
  "sgd_body eta x y wv a j =
     (case getitem x j of
        Inl e \<Rightarrow> Inl e
      | Inr x_sample \<Rightarrow>
     (case getitem y j of
        Inl e \<Rightarrow> Inl e
      | Inr y_sample \<Rightarrow>
     (case G wv [x_sample] [y_sample] of
        Inl e \<Rightarrow> Inl e
      | Inr g \<Rightarrow> Inr (vsub wv (smul eta g), ()))))"

definition momentum_body :: "real \<Rightarrow> real \<Rightarrow> real list \<Rightarrow> real list \<Rightarrow> (nat, vec2) body" where
  "momentum_body eta momentum x y wv delta_w j =
     (case getitem x j of
        Inl e \<Rightarrow> Inl e
      | Inr x_sample \<Rightarrow>
     (case getitem y j of
        Inl e \<Rightarrow> Inl e
      | Inr y_sample \<Rightarrow>
     (case G wv [x_sample] [y_sample] of
        Inl e \<Rightarrow> Inl e
      | Inr g \<Rightarrow>
          (let delta_w1 = vadd (smul momentum delta_w) (smul (1 - momentum) g)
           in Inr (vsub wv (smul eta delta_w1), delta_w1)))))"

definition rmsprop_body :: "real \<Rightarrow> real \<Rightarrow> real list \<Rightarrow> real list \<Rightarrow> (nat, vec2) body" where
  "rmsprop_body eta momentum x y wv g2 j =
     (case getitem x j of
        Inl e \<Rightarrow> Inl e
      | Inr x_sample \<Rightarrow>
     (case getitem y j of
        Inl e \<Rightarrow> Inl e
      | Inr y_sample \<Rightarrow>
     (case G wv [x_sample] [y_sample] of
        Inl e \<Rightarrow> Inl e
      | Inr gradient \<Rightarrow>
          (let g2' = rms_g2 momentum g2 gradient
           in case rms_update eta gradient g2' of
                Inl e \<Rightarrow> Inl e
              | Inr u \<Rightarrow> Inr (vsub wv u, g2')))))"

definition run_of :: "error + vec2 \<times> vec2 list \<times> vec2 list \<times> 'a \<times> 'g \<Rightarrow> error + 'g run" where
  "run_of r = (case r of Inl e \<Rightarrow> Inl e | Inr (wv, tr, ep, a, g) \<Rightarrow> Inr (wv, tr, ep, g))"

definition batch_values :: "nat \<Rightarrow> real \<Rightarrow> real list \<Rightarrow> real list \<Rightarrow> vec2 \<Rightarrow> error + vec2 \<times> vec2 list" where
  "batch_values epochs eta x y w0 =
     (case steps_v (batch_body eta x y) (replicate epochs ()) (w0, [w0], ()) of
        Inl e \<Rightarrow> Inl e
      | Inr (wv, tr, a) \<Rightarrow> Inr (wv, tr))"

definition sgd_values :: "'g chooser \<Rightarrow> 'g \<Rightarrow> nat \<Rightarrow> real \<Rightarrow> real list \<Rightarrow> real list \<Rightarrow> vec2 \<Rightarrow> error + 'g run" where
  "sgd_values choice rng epochs eta x y w0 =
     run_of (epochs_v choice (sgd_body eta x y) (length x) epochs (w0, [w0], [w0], (), rng))"

definition momentum_values :: "'g chooser \<Rightarrow> 'g \<Rightarrow> nat \<Rightarrow> real \<Rightarrow> real \<Rightarrow> real list \<Rightarrow> real list \<Rightarrow> vec2 \<Rightarrow> error + 'g run" where
  "momentum_values choice rng epochs eta momentum x y w0 =
     run_of (epochs_v choice (momentum_body eta momentum x y) (length x) epochs
               (w0, [w0], [w0], (0, 0), rng))"

definition rmsprop_values :: "'g chooser \<Rightarrow> 'g \<Rightarrow> nat \<Rightarrow> real \<Rightarrow> real \<Rightarrow> real list \<Rightarrow> real list \<Rightarrow> vec2 \<Rightarrow> error + 'g run" where
  "rmsprop_values choice rng epochs eta momentum x y w0 =
     run_of (epochs_v choice (rmsprop_body eta momentum x y) (length x) epochs
               (w0, [w0], [w0], (0, 0), rng))"

text \<open>
  \<open>rng_after choice m rng e\<close> is the generator's state after \<open>e\<close> draws for
  \<open>range(m)\<close>, and \<open>draw choice m rng e\<close> is the draw it makes next: the indices of
  epoch \<open>e\<close>, counted from 0.
\<close>

fun rng_after :: "'g chooser \<Rightarrow> nat \<Rightarrow> 'g \<Rightarrow> nat \<Rightarrow> 'g" where
  "rng_after choice m rng 0 = rng"
| "rng_after choice m rng (Suc e) = rng_after choice m (snd (choice rng m)) e"

definition draw :: "'g chooser \<Rightarrow> nat \<Rightarrow> 'g \<Rightarrow> nat \<Rightarrow> nat list" where
  "draw choice m rng e = fst (choice (rng_after choice m rng e) m)"

text \<open>
  The relation between a store and a later one: \<open>keeps w h h'\<close> says that \<open>h'\<close> has
  every array of \<open>h\<close>, each with its contents of before except the one \<open>w\<close> refers to.
  \<open>snapshots h w rs\<close> says that the arrays listed in \<open>rs\<close> exist and none of them is
  \<open>w\<close>. \<open>refines\<close> and \<open>refines_run\<close> relate the outcome of a loop on the store to
  the outcome of the same loop on values: the same error, or a store that keeps the older
  one and whose arrays hold exactly the values.
\<close>

definition keeps :: "ref \<Rightarrow> heap \<Rightarrow> heap \<Rightarrow> bool" where
  "keeps w h h' = (length h \<le> length h' \<and> (\<forall>r<length h. r \<noteq> w \<longrightarrow> h' ! r = h ! r))"

definition snapshots :: "heap \<Rightarrow> ref \<Rightarrow> ref list \<Rightarrow> bool" where
  "snapshots h w rs = (w < length h \<and> (\<forall>r\<in>set rs. r < length h \<and> r \<noteq> w))"

definition refines :: "ref \<Rightarrow> heap \<times> ref list \<Rightarrow> error + heap \<times> ref list \<times> 'a \<Rightarrow> error + vec2 \<times> vec2 list \<times> 'a \<Rightarrow> bool" where
  "refines w s r v =
     (case r of
        Inl e \<Rightarrow> v = Inl e
      | Inr (h', tr', a') \<Rightarrow>
          keeps w (fst s) h' \<and> snapshots h' w tr' \<and> take (length (snd s)) tr' = snd s \<and>
          v = Inr (h' ! w, np_array_of h' tr', a'))"

definition refines_run :: "ref \<Rightarrow> heap \<Rightarrow> error + heap \<times> ref list \<times> ref list \<times> 'a \<times> 'g \<Rightarrow> error + vec2 \<times> vec2 list \<times> vec2 list \<times> 'a \<times> 'g \<Rightarrow> bool" where
  "refines_run w h r v =
     (case r of
        Inl e \<Rightarrow> v = Inl e
      | Inr (h', tr', ep', a', g') \<Rightarrow>
          keeps w h h' \<and> snapshots h' w (tr' @ ep') \<and>
          v = Inr (h' ! w, np_array_of h' tr', np_array_of h' ep', a', g'))"

text \<open>
  A generator for the examples: its state counts the draws, and draw number \<open>k\<close> is
  \<open>range(m)\<close> rotated by \<open>k\<close>.
\<close>

definition rotating_choice :: "nat chooser" where
  "rotating_choice rng m = (rotate rng [0..<m], Suc rng)"

section \<open>Facts about the store\<close>

lemma keeps_refl: "keeps w h h"
  by (simp add: keeps_def)

lemma keeps_trans: "keeps w h h1 \<Longrightarrow> keeps w h1 h2 \<Longrightarrow> keeps w h h2"
  by (auto simp: keeps_def)

lemma keeps_snapshots:
  assumes "keeps w h h'" and "snapshots h w rs"
  shows "snapshots h' w rs" and "np_array_of h' rs = np_array_of h rs"
  using assms by (auto simp: keeps_def snapshots_def np_array_of_def)

lemma snapshots_append: "snapshots h w (rs @ qs) = (snapshots h w rs \<and> snapshots h w qs)"
  by (auto simp: snapshots_def)

lemma copy_heap:
  assumes "snapshots h w rs" and "copy h w = (h2, c)"
  shows "keeps w h h2" and "snapshots h2 w (rs @ [c])" and "h2 ! w = h ! w"
    and "np_array_of h2 (rs @ [c]) = np_array_of h rs @ [h ! w]"
  using assms
  by (auto simp: copy_def np_array_def keeps_def snapshots_def np_array_of_def nth_append)

lemma isub_heap:
  assumes "snapshots h w rs"
  shows "keeps w h (isub h w d)" and "snapshots (isub h w d) w rs"
    and "isub h w d ! w = vsub (h ! w) d"
    and "np_array_of (isub h w d) rs = np_array_of h rs"
  using assms
  by (auto simp: isub_def keeps_def snapshots_def np_array_of_def)

lemma update_heap:
  assumes "snapshots h w rs" and "copy (isub h w d) w = (h2, c)"
  shows "keeps w h h2" and "snapshots h2 w (rs @ [c])" and "h2 ! w = vsub (h ! w) d"
    and "np_array_of h2 (rs @ [c]) = np_array_of h rs @ [vsub (h ! w) d]"
proof -
  note i = isub_heap [OF assms(1), of d]
  note c = copy_heap [OF i(2) assms(2)]
  show "keeps w h h2" using i(1) c(1) by (rule keeps_trans)
  show "snapshots h2 w (rs @ [c])" by (rule c(2))
  show "h2 ! w = vsub (h ! w) d" using c(3) i(3) by simp
  show "np_array_of h2 (rs @ [c]) = np_array_of h rs @ [vsub (h ! w) d]"
    using c(4) i(3) i(4) by simp
qed

lemma initial_heap:
  assumes "np_array [] w0 = (h0, w)" and "copy h0 w = (h1, c1)" and "copy h1 w = (h2, c2)"
  shows "snapshots h1 w [c1]" and "h1 ! w = w0" and "np_array_of h1 [c1] = [w0]"
    and "snapshots h2 w ([c1] @ [c2])" and "h2 ! w = w0"
    and "np_array_of h2 [c1] = [w0]" and "np_array_of h2 [c2] = [w0]"
  using assms
  by (auto simp: np_array_def copy_def snapshots_def np_array_of_def nth_append)

section \<open>The cells compute what the loops on values compute\<close>

lemma refines_step:
  assumes "keeps w h h2" and "refines w (h2, tr @ [c]) r v"
  shows "refines w (h, tr) r v"
proof (cases r)
  case (Inl e)
  then show ?thesis using assms(2) by (simp add: refines_def)
next
  case (Inr p)
  obtain h' tr' a' where p: "p = (h', tr', a')" by (cases p)
  from assms(2) Inr p have k: "keeps w h2 h'" and s: "snapshots h' w tr'"
    and t: "take (length (tr @ [c])) tr' = tr @ [c]" and v: "v = Inr (h' ! w, np_array_of h' tr', a')"
    by (simp_all add: refines_def)
  from t have "take (length tr) (take (length (tr @ [c])) tr') = take (length tr) (tr @ [c])"
    by simp
  then have t': "take (length tr) tr' = tr" by (simp add: min_def)
  show ?thesis using keeps_trans [OF assms(1) k] s t' v Inr p by (simp add: refines_def)
qed

lemma sgd_inner_refines:
  "snapshots h w tr \<Longrightarrow>
   refines w (h, tr) (map_sum (\<lambda>e. e) (\<lambda>(h', tr'). (h', tr', ())) (sgd_inner eta x y w js (h, tr)))
     (steps_v (sgd_body eta x y) js (h ! w, np_array_of h tr, ()))"
proof (induction js arbitrary: h tr)
  case Nil
  then show ?case by (simp add: refines_def keeps_refl)
next
  case (Cons j js)
  show ?case
  proof (cases "sgd_body eta x y (h ! w) () j")
    case (Inl e)
    then show ?thesis
      by (auto simp: refines_def sgd_body_def split: sum.splits)
  next
    case (Inr p)
    then obtain g where g: "getitem x j = Inr (x ! j)" "getitem y j = Inr (y ! j)"
        "G (h ! w) [x ! j] [y ! j] = Inr g" "p = (vsub (h ! w) (smul eta g), ())"
      by (auto simp: sgd_body_def getitem_def split: sum.splits if_splits)
    obtain h2 c where c: "copy (isub h w (smul eta g)) w = (h2, c)"
      by (cases "copy (isub h w (smul eta g)) w")
    note u = update_heap [OF Cons.prems c]
    have ih: "refines w (h2, tr @ [c])
        (map_sum (\<lambda>e. e) (\<lambda>(h', tr'). (h', tr', ())) (sgd_inner eta x y w js (h2, tr @ [c])))
        (steps_v (sgd_body eta x y) js (h2 ! w, np_array_of h2 (tr @ [c]), ()))"
      by (rule Cons.IH [OF u(2)])
    show ?thesis
      using refines_step [OF u(1) ih] Inr g c u(3,4) by simp
  qed
qed

lemma momentum_inner_refines:
  "snapshots h w tr \<Longrightarrow>
   refines w (h, tr) (momentum_inner eta momentum x y w js (h, tr, delta_w))
     (steps_v (momentum_body eta momentum x y) js (h ! w, np_array_of h tr, delta_w))"
proof (induction js arbitrary: h tr delta_w)
  case Nil
  then show ?case by (simp add: refines_def keeps_refl)
next
  case (Cons j js)
  show ?case
  proof (cases "momentum_body eta momentum x y (h ! w) delta_w j")
    case (Inl e)
    then show ?thesis
      by (auto simp: refines_def momentum_body_def Let_def split: sum.splits)
  next
    case (Inr p)
    then obtain g d where g: "getitem x j = Inr (x ! j)" "getitem y j = Inr (y ! j)"
        "G (h ! w) [x ! j] [y ! j] = Inr g"
        "d = vadd (smul momentum delta_w) (smul (1 - momentum) g)"
        "p = (vsub (h ! w) (smul eta d), d)"
      by (auto simp: momentum_body_def getitem_def Let_def split: sum.splits if_splits)
    obtain h2 c where c: "copy (isub h w (smul eta d)) w = (h2, c)"
      by (cases "copy (isub h w (smul eta d)) w")
    note u = update_heap [OF Cons.prems c]
    have ih: "refines w (h2, tr @ [c])
        (momentum_inner eta momentum x y w js (h2, tr @ [c], d))
        (steps_v (momentum_body eta momentum x y) js (h2 ! w, np_array_of h2 (tr @ [c]), d))"
      by (rule Cons.IH [OF u(2)])
    show ?thesis
      using refines_step [OF u(1) ih] Inr g c u(3,4) by (simp add: Let_def)
  qed
qed

lemma rmsprop_inner_refines:
  "snapshots h w tr \<Longrightarrow>
   refines w (h, tr) (rmsprop_inner eta momentum x y w js (h, tr, g2))
     (steps_v (rmsprop_body eta momentum x y) js (h ! w, np_array_of h tr, g2))"
proof (induction js arbitrary: h tr g2)
  case Nil
  then show ?case by (simp add: refines_def keeps_refl)
next
  case (Cons j js)
  show ?case
  proof (cases "rmsprop_body eta momentum x y (h ! w) g2 j")
    case (Inl e)
    then show ?thesis
      by (auto simp: refines_def rmsprop_body_def Let_def split: sum.splits)
  next
    case (Inr p)
    then obtain g u where g: "getitem x j = Inr (x ! j)" "getitem y j = Inr (y ! j)"
        "G (h ! w) [x ! j] [y ! j] = Inr g"
        "rms_update eta g (rms_g2 momentum g2 g) = Inr u"
        "p = (vsub (h ! w) u, rms_g2 momentum g2 g)"
      by (auto simp: rmsprop_body_def getitem_def Let_def split: sum.splits if_splits)
    obtain h2 c where c: "copy (isub h w u) w = (h2, c)"
      by (cases "copy (isub h w u) w")
    note up = update_heap [OF Cons.prems c]
    have ih: "refines w (h2, tr @ [c])
        (rmsprop_inner eta momentum x y w js (h2, tr @ [c], rms_g2 momentum g2 g))
        (steps_v (rmsprop_body eta momentum x y) js
           (h2 ! w, np_array_of h2 (tr @ [c]), rms_g2 momentum g2 g))"
      by (rule Cons.IH [OF up(2)])
    show ?thesis
      using refines_step [OF up(1) ih] Inr g c up(3,4) by (simp add: Let_def)
  qed
qed

lemma batch_loop_refines:
  "snapshots h w tr \<Longrightarrow>
   refines w (h, tr) (map_sum (\<lambda>e. e) (\<lambda>(h', tr'). (h', tr', ())) (batch_loop n eta x y w (h, tr)))
     (steps_v (batch_body eta x y) (replicate n ()) (h ! w, np_array_of h tr, ()))"
proof (induction n arbitrary: h tr)
  case 0
  then show ?case by (simp add: refines_def keeps_refl)
next
  case (Suc n)
  show ?case
  proof (cases "G (h ! w) x y")
    case (Inl e)
    then have "batch_body eta x y (h ! w) () () = Inl e"
      by (simp add: batch_body_def)
    with Inl show ?thesis
      by (simp add: refines_def)
  next
    case (Inr g)
    obtain h2 c where c: "copy (isub h w (smul eta g)) w = (h2, c)"
      by (cases "copy (isub h w (smul eta g)) w")
    note u = update_heap [OF Suc.prems c]
    have ih: "refines w (h2, tr @ [c])
        (map_sum (\<lambda>e. e) (\<lambda>(h', tr'). (h', tr', ())) (batch_loop n eta x y w (h2, tr @ [c])))
        (steps_v (batch_body eta x y) (replicate n ()) (h2 ! w, np_array_of h2 (tr @ [c]), ()))"
      by (rule Suc.IH [OF u(2)])
    have b: "batch_body eta x y (h ! w) () () = Inr (vsub (h ! w) (smul eta g), ())"
      using Inr by (simp add: batch_body_def)
    show ?thesis
      using refines_step [OF u(1) ih] Inr b c u(3,4) by simp
  qed
qed

lemma refines_run_step:
  assumes "keeps w h h2" and "refines_run w h2 r v"
  shows "refines_run w h r v"
  using assms by (auto simp: refines_run_def split: sum.splits dest: keeps_trans)

lemma epoch_step:
  assumes s: "snapshots h w (tr @ ep)"
    and inner: "refines w (h, tr) (Inr (h1, tr1, a1)) v1"
    and c: "copy h1 w = (h2, c)"
  shows "v1 = Inr (h2 ! w, np_array_of h2 tr1, a1)"
    and "snapshots h2 w (tr1 @ ep @ [c])"
    and "keeps w h h2"
    and "np_array_of h2 (ep @ [c]) = np_array_of h ep @ [h2 ! w]"
proof -
  from inner have k: "keeps w h h1" and s1: "snapshots h1 w tr1"
    and v: "v1 = Inr (h1 ! w, np_array_of h1 tr1, a1)"
    by (simp_all add: refines_def)
  from s have sep: "snapshots h w ep" by (simp add: snapshots_append)
  note e1 = keeps_snapshots [OF k sep]
  from s1 e1(1) have s1': "snapshots h1 w (tr1 @ ep)" by (simp add: snapshots_append)
  note cc = copy_heap [OF s1' c]
  note ce = copy_heap [OF e1(1) c]
  note t2 = keeps_snapshots [OF cc(1) s1]
  show "v1 = Inr (h2 ! w, np_array_of h2 tr1, a1)" using v cc(3) t2(2) by simp
  show "snapshots h2 w (tr1 @ ep @ [c])" using cc(2) by simp
  show "keeps w h h2" using k cc(1) by (rule keeps_trans)
  show "np_array_of h2 (ep @ [c]) = np_array_of h ep @ [h2 ! w]"
    using ce(4) e1(2) cc(3) by simp
qed

lemma sgd_epochs_refines:
  "snapshots h w (tr @ ep) \<Longrightarrow>
   refines_run w h
     (map_sum (\<lambda>e. e) (\<lambda>(h', tr', ep', g'). (h', tr', ep', (), g'))
        (sgd_epochs choice n eta x y w (h, tr, ep, rng)))
     (epochs_v choice (sgd_body eta x y) (length x) n
        (h ! w, np_array_of h tr, np_array_of h ep, (), rng))"
proof (induction n arbitrary: h tr ep rng)
  case 0
  then show ?case by (simp add: refines_run_def keeps_refl)
next
  case (Suc n)
  obtain js rng1 where ch: "choice rng (length x) = (js, rng1)"
    by (cases "choice rng (length x)")
  from Suc.prems have st: "snapshots h w tr" by (simp add: snapshots_append)
  note inner = sgd_inner_refines [OF st, of eta x y js]
  show ?case
  proof (cases "sgd_inner eta x y w js (h, tr)")
    case (Inl e)
    with inner have "steps_v (sgd_body eta x y) js (h ! w, np_array_of h tr, ()) = Inl e"
      by (simp add: refines_def)
    with Inl ch show ?thesis by (simp add: refines_run_def)
  next
    case (Inr p)
    obtain h1 tr1 where p: "p = (h1, tr1)" by (cases p)
    obtain h2 c where c: "copy h1 w = (h2, c)" by (cases "copy h1 w")
    from inner Inr p have inner': "refines w (h, tr) (Inr (h1, tr1, ()))
        (steps_v (sgd_body eta x y) js (h ! w, np_array_of h tr, ()))"
      by simp
    note e = epoch_step [OF Suc.prems inner' c]
    from e(2) have s2: "snapshots h2 w (tr1 @ (ep @ [c]))" by simp
    note ih = Suc.IH [OF s2, of rng1]
    show ?thesis
      using refines_run_step [OF e(3) ih] Inr p ch c e(1,4) by simp
  qed
qed

lemma momentum_epochs_refines:
  "snapshots h w (tr @ ep) \<Longrightarrow>
   refines_run w h (momentum_epochs choice n eta momentum x y w (h, tr, ep, delta_w, rng))
     (epochs_v choice (momentum_body eta momentum x y) (length x) n
        (h ! w, np_array_of h tr, np_array_of h ep, delta_w, rng))"
proof (induction n arbitrary: h tr ep delta_w rng)
  case 0
  then show ?case by (simp add: refines_run_def keeps_refl)
next
  case (Suc n)
  obtain js rng1 where ch: "choice rng (length x) = (js, rng1)"
    by (cases "choice rng (length x)")
  from Suc.prems have st: "snapshots h w tr" by (simp add: snapshots_append)
  note inner = momentum_inner_refines [OF st, of eta momentum x y js delta_w]
  show ?case
  proof (cases "momentum_inner eta momentum x y w js (h, tr, delta_w)")
    case (Inl e)
    with inner have "steps_v (momentum_body eta momentum x y) js (h ! w, np_array_of h tr, delta_w) = Inl e"
      by (simp add: refines_def)
    with Inl ch show ?thesis by (simp add: refines_run_def)
  next
    case (Inr p)
    obtain h1 tr1 d1 where p: "p = (h1, tr1, d1)" by (cases p)
    obtain h2 c where c: "copy h1 w = (h2, c)" by (cases "copy h1 w")
    from inner Inr p have inner': "refines w (h, tr) (Inr (h1, tr1, d1))
        (steps_v (momentum_body eta momentum x y) js (h ! w, np_array_of h tr, delta_w))"
      by simp
    note e = epoch_step [OF Suc.prems inner' c]
    from e(2) have s2: "snapshots h2 w (tr1 @ (ep @ [c]))" by simp
    note ih = Suc.IH [OF s2, of d1 rng1]
    show ?thesis
      using refines_run_step [OF e(3) ih] Inr p ch c e(1,4) by simp
  qed
qed

lemma rmsprop_epochs_refines:
  "snapshots h w (tr @ ep) \<Longrightarrow>
   refines_run w h (rmsprop_epochs choice n eta momentum x y w (h, tr, ep, g2, rng))
     (epochs_v choice (rmsprop_body eta momentum x y) (length x) n
        (h ! w, np_array_of h tr, np_array_of h ep, g2, rng))"
proof (induction n arbitrary: h tr ep g2 rng)
  case 0
  then show ?case by (simp add: refines_run_def keeps_refl)
next
  case (Suc n)
  obtain js rng1 where ch: "choice rng (length x) = (js, rng1)"
    by (cases "choice rng (length x)")
  from Suc.prems have st: "snapshots h w tr" by (simp add: snapshots_append)
  note inner = rmsprop_inner_refines [OF st, of eta momentum x y js g2]
  show ?case
  proof (cases "rmsprop_inner eta momentum x y w js (h, tr, g2)")
    case (Inl e)
    with inner have "steps_v (rmsprop_body eta momentum x y) js (h ! w, np_array_of h tr, g2) = Inl e"
      by (simp add: refines_def)
    with Inl ch show ?thesis by (simp add: refines_run_def)
  next
    case (Inr p)
    obtain h1 tr1 d1 where p: "p = (h1, tr1, d1)" by (cases p)
    obtain h2 c where c: "copy h1 w = (h2, c)" by (cases "copy h1 w")
    from inner Inr p have inner': "refines w (h, tr) (Inr (h1, tr1, d1))
        (steps_v (rmsprop_body eta momentum x y) js (h ! w, np_array_of h tr, g2))"
      by simp
    note e = epoch_step [OF Suc.prems inner' c]
    from e(2) have s2: "snapshots h2 w (tr1 @ (ep @ [c]))" by simp
    note ih = Suc.IH [OF s2, of d1 rng1]
    show ?thesis
      using refines_run_step [OF e(3) ih] Inr p ch c e(1,4) by simp
  qed
qed

lemma batch_gradient_descent_values:
  "batch_gradient_descent n eta x y w0 = batch_values n eta x y w0"
proof -
  obtain h0 w where a: "np_array [] w0 = (h0, w)" by (cases "np_array [] w0")
  obtain h1 c1 where b: "copy h0 w = (h1, c1)" by (cases "copy h0 w")
  obtain h2 c2 where c: "copy h1 w = (h2, c2)" by (cases "copy h1 w")
  note i = initial_heap [OF a b c]
  note r = batch_loop_refines [OF i(1), of n eta x y]
  show ?thesis
    using r a b i(2,3)
    by (auto simp: batch_gradient_descent_def batch_values_def refines_def
        split: sum.splits)
qed

lemma stochastic_gradient_descent_values:
  "stochastic_gradient_descent choice rng n eta x y w0 = sgd_values choice rng n eta x y w0"
proof -
  obtain h0 w where a: "np_array [] w0 = (h0, w)" by (cases "np_array [] w0")
  obtain h1 c1 where b: "copy h0 w = (h1, c1)" by (cases "copy h0 w")
  obtain h2 c2 where c: "copy h1 w = (h2, c2)" by (cases "copy h1 w")
  note i = initial_heap [OF a b c]
  note r = sgd_epochs_refines [OF i(4), of choice n eta x y rng]
  show ?thesis
    using r a b c i(5,6,7)
    by (auto simp: stochastic_gradient_descent_def sgd_values_def run_of_def refines_run_def
        split: sum.splits)
qed

lemma momentum_gradient_descent_values:
  "momentum_gradient_descent choice rng n eta momentum x y w0 =
   momentum_values choice rng n eta momentum x y w0"
proof -
  obtain h0 w where a: "np_array [] w0 = (h0, w)" by (cases "np_array [] w0")
  obtain h1 c1 where b: "copy h0 w = (h1, c1)" by (cases "copy h0 w")
  obtain h2 c2 where c: "copy h1 w = (h2, c2)" by (cases "copy h1 w")
  note i = initial_heap [OF a b c]
  note r = momentum_epochs_refines [OF i(4), of choice n eta momentum x y "(0, 0)" rng]
  show ?thesis
    using r a b c i(5,6,7)
    by (auto simp: momentum_gradient_descent_def momentum_values_def run_of_def refines_run_def
        split: sum.splits)
qed

lemma rmsprop_values_eq:
  "rmsprop choice rng n eta momentum x y w0 = rmsprop_values choice rng n eta momentum x y w0"
proof -
  obtain h0 w where a: "np_array [] w0 = (h0, w)" by (cases "np_array [] w0")
  obtain h1 c1 where b: "copy h0 w = (h1, c1)" by (cases "copy h0 w")
  obtain h2 c2 where c: "copy h1 w = (h2, c2)" by (cases "copy h1 w")
  note i = initial_heap [OF a b c]
  note r = rmsprop_epochs_refines [OF i(4), of choice n eta momentum x y "(0, 0)" rng]
  show ?thesis
    using r a b c i(5,6,7)
    by (auto simp: rmsprop_def rmsprop_values_def run_of_def refines_run_def
        split: sum.splits)
qed

section \<open>The shape of a trajectory\<close>

lemma steps_v_shape:
  "steps_v body js (wv, tr, a) = Inr (wv', tr', a') \<Longrightarrow>
   \<exists>new. tr' = tr @ new \<and> length new = length js \<and> wv' = last (wv # new) \<and>
     (\<forall>k<length js. \<exists>a1 a2. body ((wv # new) ! k) a1 (js ! k) = Inr (new ! k, a2))"
proof (induction js arbitrary: wv tr a)
  case Nil
  then show ?case by simp
next
  case (Cons j js)
  from Cons.prems obtain wv1 a1 where b: "body wv a j = Inr (wv1, a1)"
    and r: "steps_v body js (wv1, tr @ [wv1], a1) = Inr (wv', tr', a')"
    by (auto split: sum.splits)
  from Cons.IH [OF r] obtain new2 where n2: "tr' = (tr @ [wv1]) @ new2" "length new2 = length js"
      "wv' = last (wv1 # new2)"
      "\<And>k. k < length js \<Longrightarrow> \<exists>a1 a2. body ((wv1 # new2) ! k) a1 (js ! k) = Inr (new2 ! k, a2)"
    by blast
  have "\<exists>a1 a2. body ((wv # wv1 # new2) ! k) a1 ((j # js) ! k) = Inr ((wv1 # new2) ! k, a2)"
    if "k < length (j # js)" for k
  proof (cases k)
    case 0
    then show ?thesis using b by auto
  next
    case (Suc k')
    with that have "k' < length js" by simp
    from n2(4) [OF this] Suc show ?thesis by simp
  qed
  moreover have "tr' = tr @ wv1 # new2" using n2(1) by simp
  moreover have "length (wv1 # new2) = length (j # js)" using n2(2) by simp
  moreover have "wv' = last (wv # wv1 # new2)" using n2(3) by simp
  ultimately show ?case by blast
qed

lemma nth_after_epoch:
  assumes "length new1 = m"
  shows "(last (wv # new1) # new2) ! k = (wv # new1 @ new2) ! (m + k)"
proof (cases k)
  case 0
  show ?thesis
  proof (cases new1 rule: rev_cases)
    case Nil
    with assms 0 show ?thesis by simp
  next
    case (snoc ys y)
    with assms have "m = Suc (length ys)" by simp
    with snoc 0 show ?thesis by (simp add: nth_append)
  qed
next
  case (Suc k')
  with assms show ?thesis by (simp add: nth_append)
qed

lemma epochs_v_shape:
  assumes len: "\<And>g. length (fst (choice g m)) = m"
  shows "epochs_v choice body m n (wv, tr, ep, a, rng) = Inr (wv', tr', ep', a', rng') \<Longrightarrow>
    \<exists>new newe. tr' = tr @ new \<and> ep' = ep @ newe \<and> length new = n * m \<and> length newe = n \<and>
      wv' = last (wv # new) \<and> rng' = rng_after choice m rng n \<and>
      (\<forall>e<n. newe ! e = (wv # new) ! ((e + 1) * m)) \<and>
      (\<forall>e<n. \<forall>k<m. \<exists>a1 a2.
          body ((wv # new) ! (e * m + k)) a1 (draw choice m rng e ! k) = Inr (new ! (e * m + k), a2))"
proof (induction n arbitrary: wv tr ep a rng)
  case 0
  then show ?case by simp
next
  case (Suc n)
  obtain js rng1 where ch: "choice rng m = (js, rng1)" by (cases "choice rng m")
  from len [of rng] ch have ljs: "length js = m" by simp
  from Suc.prems ch obtain wv1 tr1 a1 where
    inner: "steps_v body js (wv, tr, a) = Inr (wv1, tr1, a1)"
    and rest: "epochs_v choice body m n (wv1, tr1, ep @ [wv1], a1, rng1) = Inr (wv', tr', ep', a', rng')"
    by (auto split: sum.splits)
  from steps_v_shape [OF inner] obtain new1 where n1: "tr1 = tr @ new1" "length new1 = length js"
      "wv1 = last (wv # new1)"
      "\<And>k. k < length js \<Longrightarrow> \<exists>a1 a2. body ((wv # new1) ! k) a1 (js ! k) = Inr (new1 ! k, a2)"
    by blast
  from Suc.IH [OF rest] obtain new2 newe2 where n2': "tr' = tr1 @ new2 \<and> ep' = (ep @ [wv1]) @ newe2 \<and>
      length new2 = n * m \<and> length newe2 = n \<and> wv' = last (wv1 # new2) \<and>
      rng' = rng_after choice m rng1 n \<and>
      (\<forall>e<n. newe2 ! e = (wv1 # new2) ! ((e + 1) * m)) \<and>
      (\<forall>e<n. \<forall>k<m. \<exists>a1 a2.
          body ((wv1 # new2) ! (e * m + k)) a1 (draw choice m rng1 e ! k) = Inr (new2 ! (e * m + k), a2))"
    by (elim exE) (rule that)
  then have n2: "tr' = tr1 @ new2" "ep' = (ep @ [wv1]) @ newe2"
      "length new2 = n * m" "length newe2 = n" "wv' = last (wv1 # new2)"
      "rng' = rng_after choice m rng1 n"
      "\<And>e. e < n \<Longrightarrow> newe2 ! e = (wv1 # new2) ! ((e + 1) * m)"
      "\<And>e k. e < n \<Longrightarrow> k < m \<Longrightarrow>
           \<exists>a1 a2. body ((wv1 # new2) ! (e * m + k)) a1 (draw choice m rng1 e ! k) = Inr (new2 ! (e * m + k), a2)"
    by simp_all
  have l1: "length new1 = m" using n1(2) ljs by simp
  note shift = nth_after_epoch [OF l1, of wv new2, folded n1(3)]
  have d0: "draw choice m rng 0 = js" using ch by (simp add: draw_def)
  have dS: "draw choice m rng (Suc e) = draw choice m rng1 e" for e
    using ch by (simp add: draw_def)
  have 1: "tr' = tr @ new1 @ new2" using n1(1) n2(1) by simp
  have 2: "ep' = ep @ wv1 # newe2" using n2(2) by simp
  have 3: "length (new1 @ new2) = Suc n * m" using l1 n2(3) by simp
  have 4: "length (wv1 # newe2) = Suc n" using n2(4) by simp
  have 5: "wv' = last (wv # new1 @ new2)" using n2(5) n1(3) by (cases new2) simp_all
  have 6: "rng' = rng_after choice m rng (Suc n)" using n2(6) ch by simp
  have 7: "(wv1 # newe2) ! e = (wv # new1 @ new2) ! ((e + 1) * m)" if "e < Suc n" for e
  proof (cases e)
    case 0
    from shift [of 0] show ?thesis using 0 by simp
  next
    case (Suc e')
    with that have "e' < n" by simp
    from n2(7) [OF this] shift [of "(e' + 1) * m"] Suc show ?thesis
      by (simp add: add.commute)
  qed
  have 8: "\<exists>a1 a2. body ((wv # new1 @ new2) ! (e * m + k)) a1 (draw choice m rng e ! k)
            = Inr ((new1 @ new2) ! (e * m + k), a2)"
    if "e < Suc n" and "k < m" for e k
  proof (cases e)
    case 0
    have "k < length (wv # new1)" using that(2) l1 by simp
    then have a: "((wv # new1) @ new2) ! k = (wv # new1) ! k" by (simp only: nth_append if_True)
    have b: "(new1 @ new2) ! k = new1 ! k" using that(2) l1 by (simp add: nth_append)
    from n1(4) [of k] that(2) ljs 0 d0 a b show ?thesis by simp
  next
    case (Suc e')
    with that have "e' < n" by simp
    from n2(8) [OF this that(2)] shift [of "e' * m + k"] Suc l1 dS show ?thesis
      by (simp add: nth_append add.assoc)
  qed
  from 1 2 3 4 5 6 7 8 show ?case by (intro exI [of _ "new1 @ new2"] exI [of _ "wv1 # newe2"]) simp
qed

lemma steps_v_total:
  assumes "\<And>wv a j. j \<in> set js \<Longrightarrow> \<exists>r. body wv a j = Inr r"
  shows "\<exists>r. steps_v body js s = Inr r"
  using assms
proof (induction js arbitrary: s)
  case Nil
  show ?case by (rule exI [of _ s]) simp
next
  case (Cons j js)
  obtain wv tr a where s: "s = (wv, tr, a)" by (rule prod_cases3)
  from Cons.prems [of j wv a] obtain wv' a' where b: "body wv a j = Inr (wv', a')" by auto
  have "\<exists>r. steps_v body js (wv', tr @ [wv'], a') = Inr r"
  proof (rule Cons.IH)
    fix i wv a
    assume "i \<in> set js"
    then have "i \<in> set (j # js)" by simp
    then show "\<exists>r. body wv a i = Inr r" by (rule Cons.prems)
  qed
  with s b show ?case by simp
qed

lemma epochs_v_total:
  assumes "\<And>g wv a j. j \<in> set (fst (choice g m)) \<Longrightarrow> \<exists>r. body wv a j = Inr r"
  shows "\<exists>r. epochs_v choice body m n s = Inr r"
proof (induction n arbitrary: s)
  case 0
  show ?case by (rule exI [of _ s]) simp
next
  case (Suc n)
  obtain wv tr ep a rng where s: "s = (wv, tr, ep, a, rng)" by (rule prod_cases5)
  obtain js rng1 where ch: "choice rng m = (js, rng1)" by (cases "choice rng m")
  have "\<exists>r. steps_v body js (wv, tr, a) = Inr r"
  proof (rule steps_v_total)
    fix wv a j
    assume "j \<in> set js"
    then have "j \<in> set (fst (choice rng m))" using ch by simp
    then show "\<exists>r. body wv a j = Inr r" by (rule assms)
  qed
  then obtain wv1 tr1 a1 where i: "steps_v body js (wv, tr, a) = Inr (wv1, tr1, a1)"
    by auto
  from Suc.IH [of "(wv1, tr1, ep @ [wv1], a1, rng1)"] s ch i show ?case by simp
qed

section \<open>Facts about the gradient\<close>

lemma foldl_plus: "foldl (+) s a = s + sum_list (a :: real list)"
  by (induction a arbitrary: s) simp_all

lemma py_sum_eq: "py_sum a = sum_list a"
  by (simp add: py_sum_def foldl_plus)

lemma residual_same_length:
  "length x = length y \<Longrightarrow>
   residual w x y = Inr (map (\<lambda>i. y ! i - fst w - snd w * x ! i) [0..<length x])"
  by (auto simp: residual_def broadcast_def intro!: nth_equalityI)

lemma G_same_length:
  assumes "length x = length y"
  shows "G w x y = Inr (- (\<Sum>i<length x. y ! i - fst w - snd w * x ! i),
                        - (\<Sum>i<length x. (y ! i - fst w - snd w * x ! i) * x ! i))"
proof -
  let ?r = "map (\<lambda>i. y ! i - fst w - snd w * x ! i) [0..<length x]"
  have b: "broadcast (*) ?r x = Inr (map (\<lambda>i. (y ! i - fst w - snd w * x ! i) * x ! i) [0..<length x])"
    by (auto simp: broadcast_def intro!: nth_equalityI)
  show ?thesis
    using b
    by (simp add: G_def residual_same_length [OF assms] py_sum_eq sum_list_sum_nth
        atLeast0LessThan)
qed

lemma L_same_length:
  assumes "length x = length y"
  shows "L w x y = Inr (1 / 2 * (\<Sum>i<length x. (y ! i - fst w - snd w * x ! i) ^ 2))"
  unfolding L_def residual_same_length [OF assms]
  by (simp add: py_sum_eq sum_list_sum_nth atLeast0LessThan)

lemma G_single:
  "G w [a] [b] = Inr (- (b - fst w - snd w * a), - ((b - fst w - snd w * a) * a))"
  by (simp add: G_def residual_def broadcast_def py_sum_def)

lemma residual_fails_iff:
  "isl (residual w x y) \<longleftrightarrow> length x \<noteq> length y \<and> length x \<noteq> 1 \<and> length y \<noteq> 1"
  by (auto simp: residual_def broadcast_def)

lemma residual_length:
  "residual w x y = Inr r \<Longrightarrow> length r = length x \<or> length x = 1"
  by (auto simp: residual_def broadcast_def split: if_splits)

lemma G_fails_iff:
  "G w x y = Inl ValueError \<longleftrightarrow> length x \<noteq> length y \<and> length x \<noteq> 1 \<and> length y \<noteq> 1"
proof (cases "residual w x y")
  case (Inl e)
  then have "isl (residual w x y)" by simp
  then have n: "length x \<noteq> length y \<and> length x \<noteq> 1 \<and> length y \<noteq> 1"
    using residual_fails_iff [of w x y] by blast
  have "e = ValueError" using Inl by (auto simp: residual_def broadcast_def split: if_splits)
  with n Inl show ?thesis by (simp add: G_def)
next
  case (Inr r)
  then have "\<not> isl (residual w x y)" by simp
  then have n: "\<not> (length x \<noteq> length y \<and> length x \<noteq> 1 \<and> length y \<noteq> 1)"
    by (simp add: residual_fails_iff)
  from residual_length [OF Inr] have "\<exists>rx. broadcast (*) r x = Inr rx"
    by (auto simp: broadcast_def)
  with Inr n show ?thesis by (auto simp: G_def)
qed

lemma G_error_is_ValueError: "G w x y = Inl e \<Longrightarrow> e = ValueError"
  by (auto simp: G_def residual_def broadcast_def split: sum.splits if_splits)

lemma G_stretch_x: "G w [a] y = G w (replicate (length y) a) y"
  by (cases "length y = 1")
     (auto simp: G_def residual_def broadcast_def map_replicate_const zip_replicate1 
        split: sum.splits intro!: arg_cong [where f = py_sum] nth_equalityI)

lemma G_stretch_y: "G w x [b] = G w x (replicate (length x) b)"
  by (cases "length x = 1")
     (auto simp: G_def residual_def broadcast_def map_replicate_const zip_replicate2
        split: sum.splits intro!: arg_cong [where f = py_sum] nth_equalityI)

lemma L_partial_w0:
  "((\<lambda>a. 1 / 2 * (\<Sum>i<n. (y i - a - w1 * x i) ^ 2)) has_field_derivative
      - (\<Sum>i<n. y i - w0 - w1 * x i)) (at (w0 :: real))"
  by (auto intro!: derivative_eq_intros simp: sum_distrib_left sum_negf [symmetric] intro!: sum.cong)

lemma L_partial_w1:
  "((\<lambda>b. 1 / 2 * (\<Sum>i<n. (y i - w0 - b * x i) ^ 2)) has_field_derivative
      - (\<Sum>i<n. (y i - w0 - w1 * x i) * x i)) (at (w1 :: real))"
  by (auto intro!: derivative_eq_intros simp: sum_distrib_left sum_negf [symmetric] intro!: sum.cong)

section \<open>Facts about the draws\<close>

lemma permutes_length: "permutes js m \<Longrightarrow> length js = m"
  unfolding permutes_def using distinct_card [of js] by auto

lemma permutes_nth: "permutes js m \<Longrightarrow> k < m \<Longrightarrow> js ! k < m"
  using permutes_length [of js m] nth_mem [of k js] by (auto simp: permutes_def)

lemma draw_permutes:
  "\<forall>g. permutes (fst (choice g m)) m \<Longrightarrow> permutes (draw choice m rng e) m"
  by (simp add: draw_def)

lemma rotating_choice_permutes: "permutes (fst (rotating_choice g m)) m"
  by (simp add: rotating_choice_def permutes_def)

lemma sgd_body_in_range:
  assumes "j < length x" and "j < length y"
  shows "\<exists>g. G wv [x ! j] [y ! j] = Inr g \<and> sgd_body eta x y wv a j = Inr (vsub wv (smul eta g), ())"
  using assms by (simp add: sgd_body_def getitem_def G_single)

lemma epochs_v_aligned:
  assumes len: "\<forall>g. length (fst (choice g m)) = m"
    and r: "run_of (epochs_v choice body m n (w0, [w0], [w0], a, rng)) = Inr (w_end, sv, ev, rng')"
  shows "length sv = n * m + 1 \<and> length ev = n + 1 \<and> (\<forall>e\<le>n. ev ! e = sv ! (e * m)) \<and>
         w_end = sv ! (n * m)"
proof -
  from r obtain a' where
    r': "epochs_v choice body m n (w0, [w0], [w0], a, rng) = Inr (w_end, sv, ev, a', rng')"
    by (auto simp: run_of_def split: sum.splits)
  from len have lens: "length (fst (choice g m)) = m" for g by simp
  from epochs_v_shape [OF lens r'] obtain new newe where s':
    "sv = [w0] @ new \<and> ev = [w0] @ newe \<and> length new = n * m \<and> length newe = n \<and>
      w_end = last (w0 # new) \<and> rng' = rng_after choice m rng n \<and>
      (\<forall>e<n. newe ! e = (w0 # new) ! ((e + 1) * m)) \<and>
      (\<forall>e<n. \<forall>k<m. \<exists>a1 a2.
          body ((w0 # new) ! (e * m + k)) a1 (draw choice m rng e ! k) = Inr (new ! (e * m + k), a2))"
    by (elim exE) (rule that)
  then have s: "sv = w0 # new" "ev = w0 # newe" "length new = n * m" "length newe = n"
      "w_end = last (w0 # new)"
      "\<And>e. e < n \<Longrightarrow> newe ! e = (w0 # new) ! ((e + 1) * m)"
    by simp_all
  have "ev ! e = sv ! (e * m)" if "e \<le> n" for e
  proof (cases e)
    case 0
    then show ?thesis using s(1,2) by simp
  next
    case (Suc e')
    with that have "e' < n" by simp
    from s(6) [OF this] Suc s(1,2) show ?thesis by simp
  qed
  moreover have "w_end = sv ! (n * m)"
    using s(1,3,5) by (simp add: last_conv_nth del: last.simps)
  ultimately show ?thesis using s(1,2,3,4) by simp
qed

section \<open>Momentum without inertia\<close>

lemma momentum_zero_inner:
  "map_sum (\<lambda>e. e) (\<lambda>(h', tr', d). (h', tr')) (momentum_inner eta 0 x y w js (h, tr, delta_w)) =
   sgd_inner eta x y w js (h, tr)"
proof (induction js arbitrary: h tr delta_w)
  case Nil
  show ?case by simp
next
  case (Cons j js)
  have z: "vadd (smul 0 d) (smul 1 g) = g" for d g
    by (simp add: vadd_def smul_def)
  show ?case
    by (simp add: z Let_def Cons.IH split: sum.split prod.split)
qed

lemma momentum_zero_epochs:
  "map_sum (\<lambda>e. e) (\<lambda>(h', tr', ep', d, g). (h', tr', ep', g))
     (momentum_epochs choice n eta 0 x y w (h, tr, ep, delta_w, rng)) =
   sgd_epochs choice n eta x y w (h, tr, ep, rng)"
proof (induction n arbitrary: h tr ep delta_w rng)
  case 0
  show ?case by simp
next
  case (Suc n)
  obtain js rng1 where ch: "choice rng (length x) = (js, rng1)"
    by (cases "choice rng (length x)")
  note i = momentum_zero_inner [of eta x y w js h tr delta_w]
  show ?case
  proof (cases "momentum_inner eta 0 x y w js (h, tr, delta_w)")
    case (Inl e)
    with i have "sgd_inner eta x y w js (h, tr) = Inl e" by simp
    with Inl ch show ?thesis by simp
  next
    case (Inr p)
    obtain h1 tr1 d1 where p: "p = (h1, tr1, d1)" by (rule prod_cases3)
    with i Inr have s: "sgd_inner eta x y w js (h, tr) = Inr (h1, tr1)" by simp
    obtain h2 c where c: "copy h1 w = (h2, c)" by (cases "copy h1 w")
    from Inr p s ch c Suc.IH [of h2 tr1 "ep @ [c]" d1 rng1] show ?thesis by simp
  qed
qed

section \<open>Facts about the RMSprop update\<close>

lemma rms_g2_first:
  "rms_g2 momentum (0, 0) g = ((1 - momentum) * (fst g)\<^sup>2, (1 - momentum) * (snd g)\<^sup>2)"
  by (simp add: rms_g2_def vadd_def smul_def vsquare_def)

lemma rms_denominator_nonneg:
  assumes "0 \<le> fst g2" and "0 \<le> snd g2"
  shows "rms_denominator g2 = Inr (sqrt (fst g2) + 1 / 10 ^ 8, sqrt (snd g2) + 1 / 10 ^ 8)"
    and "0 < sqrt (fst g2) + 1 / 10 ^ 8" and "0 < sqrt (snd g2) + 1 / 10 ^ 8"
proof -
  show "rms_denominator g2 = Inr (sqrt (fst g2) + 1 / 10 ^ 8, sqrt (snd g2) + 1 / 10 ^ 8)"
    using assms by (simp add: rms_denominator_def np_sqrt_def)
  have "0 \<le> sqrt (fst g2)" "0 \<le> sqrt (snd g2)" using assms by simp_all
  then show "0 < sqrt (fst g2) + 1 / 10 ^ 8" and "0 < sqrt (snd g2) + 1 / 10 ^ 8"
    by (simp_all add: add_nonneg_pos)
qed

lemma rms_update_nonneg:
  assumes "0 \<le> fst g2" and "0 \<le> snd g2"
  shows "rms_update eta g g2 =
     Inr (eta * fst g / (sqrt (fst g2) + 1 / 10 ^ 8), eta * snd g / (sqrt (snd g2) + 1 / 10 ^ 8))"
  using rms_denominator_nonneg [OF assms]
  by (simp add: rms_update_def vdiv_def smul_def)

section \<open>The loss along the gradient\<close>

lemma sum_square_shift:
  fixes r q :: "nat \<Rightarrow> real"
  shows "(\<Sum>i<n. (r i + eta * q i)\<^sup>2) =
         (\<Sum>i<n. (r i)\<^sup>2) + 2 * eta * (\<Sum>i<n. r i * q i) + eta\<^sup>2 * (\<Sum>i<n. (q i)\<^sup>2)"
proof -
  have "(r i + eta * q i)\<^sup>2 = (r i)\<^sup>2 + 2 * eta * (r i * q i) + eta\<^sup>2 * (q i)\<^sup>2" for i
    by (simp add: power2_eq_square algebra_simps)
  then show ?thesis
    by (simp add: sum.distrib sum_distrib_left)
qed

lemma sum_cross:
  fixes r x :: "nat \<Rightarrow> real"
  shows "(\<Sum>i<n. r i * (g0 + g1 * x i)) = g0 * (\<Sum>i<n. r i) + g1 * (\<Sum>i<n. r i * x i)"
proof -
  have "r i * (g0 + g1 * x i) = g0 * r i + g1 * (r i * x i)" for i
    by (simp add: algebra_simps)
  then show ?thesis
    by (simp add: sum.distrib sum_distrib_left)
qed

lemma loss_after_step:
  fixes x y :: "nat \<Rightarrow> real"
  defines "r \<equiv> \<lambda>w0 w1 i. y i - w0 - w1 * x i"
  assumes g0: "g0 = - (\<Sum>i<n. r w0 w1 i)" and g1: "g1 = - (\<Sum>i<n. r w0 w1 i * x i)"
  shows "1 / 2 * (\<Sum>i<n. (r (w0 - eta * g0) (w1 - eta * g1) i)\<^sup>2) =
         1 / 2 * (\<Sum>i<n. (r w0 w1 i)\<^sup>2) - eta * (g0\<^sup>2 + g1\<^sup>2)
           + eta\<^sup>2 / 2 * (\<Sum>i<n. (g0 + g1 * x i)\<^sup>2)"
proof -
  have "r (w0 - eta * g0) (w1 - eta * g1) i = r w0 w1 i + eta * (g0 + g1 * x i)" for i
    by (simp add: r_def algebra_simps)
  then have "(\<Sum>i<n. (r (w0 - eta * g0) (w1 - eta * g1) i)\<^sup>2) =
      (\<Sum>i<n. (r w0 w1 i + eta * (g0 + g1 * x i))\<^sup>2)"
    by simp
  also have "\<dots> = (\<Sum>i<n. (r w0 w1 i)\<^sup>2) + 2 * eta * (\<Sum>i<n. r w0 w1 i * (g0 + g1 * x i))
      + eta\<^sup>2 * (\<Sum>i<n. (g0 + g1 * x i)\<^sup>2)"
    by (rule sum_square_shift)
  also have "(\<Sum>i<n. r w0 w1 i * (g0 + g1 * x i)) = - (g0\<^sup>2 + g1\<^sup>2)"
    unfolding sum_cross using g0 g1 by (simp add: power2_eq_square)
  finally show ?thesis by (simp add: algebra_simps)
qed

lemma small_step_bound:
  fixes q :: "nat \<Rightarrow> real"
  assumes q: "\<And>i. q i = g0 + g1 * x i"
  shows "\<exists>t>0. \<forall>eta. 0 < eta \<and> eta < t \<longrightarrow>
           - eta * (g0\<^sup>2 + g1\<^sup>2) + eta\<^sup>2 / 2 * (\<Sum>i<n. (q i)\<^sup>2) \<le> 0"
proof (cases "(\<Sum>i<n. (q i)\<^sup>2) = 0")
  case True
  have "- eta * (g0\<^sup>2 + g1\<^sup>2) \<le> 0" if "0 < eta" for eta :: real
    using that by (simp add: mult_nonneg_nonneg)
  with True show ?thesis by (intro exI [of _ 1]) simp
next
  case False
  let ?Q = "\<Sum>i<n. (q i)\<^sup>2"
  have Qnn: "0 \<le> ?Q" by (rule sum_nonneg) simp
  with False have Qpos: "0 < ?Q" by simp
  have gne: "g0\<^sup>2 + g1\<^sup>2 \<noteq> 0"
  proof
    assume "g0\<^sup>2 + g1\<^sup>2 = 0"
    then have "g0 = 0" "g1 = 0" by (simp_all add: sum_power2_eq_zero_iff)
    then have "q i = 0" for i by (simp add: q)
    then have "?Q = 0" by simp
    with False show False by simp
  qed
  from gne have gpos: "0 < g0\<^sup>2 + g1\<^sup>2"
    by (auto simp: sum_power2_gt_zero_iff sum_power2_eq_zero_iff)
  let ?t = "2 * (g0\<^sup>2 + g1\<^sup>2) / ?Q"
  have tpos: "0 < ?t" using gpos Qpos by simp
  have "- eta * (g0\<^sup>2 + g1\<^sup>2) + eta\<^sup>2 / 2 * ?Q \<le> 0" if "0 < eta" "eta < ?t" for eta
  proof -
    from that(2) Qpos have "eta * ?Q < 2 * (g0\<^sup>2 + g1\<^sup>2)"
      by (simp add: pos_less_divide_eq)
    then have "eta * ?Q / 2 \<le> g0\<^sup>2 + g1\<^sup>2" by simp
    with that(1) have "eta * (eta * ?Q / 2) \<le> eta * (g0\<^sup>2 + g1\<^sup>2)"
      by (simp add: mult_left_mono)
    then show ?thesis by (simp add: power2_eq_square algebra_simps)
  qed
  with tpos show ?thesis by blast
qed

section \<open>The claims\<close>

subsection \<open>C1: one batch step on the three-point line\<close>

text \<open>
  C1, as stated, fails. For \<open>x = [0, 0.5, 1]\<close>, \<open>y = [1, 1.5, 2]\<close>, \<open>w = [0, 0]\<close>
  and \<open>eta = 0.01\<close> the gradient is \<open>[-4.5, -2.75]\<close>, so one batch step leaves
  \<open>w = [0.045, 0.0275]\<close>. The second entry is not within 0.001 of the claimed
  \<open>0.0225\<close>.
\<close>

theorem batch_step_example_not_0225:
  "\<not> \<bar>snd (fst (projr (batch_gradient_descent 1 0.01 [0, 0.5, 1] [1, 1.5, 2] (0, 0)))) - 0.0225\<bar>
       \<le> 0.001"
  by (simp add: batch_gradient_descent_def np_array_def copy_def isub_def np_array_of_def G_def
      residual_def broadcast_def py_sum_def smul_def vsub_def)

text \<open>
  C1, amended: one batch-gradient-descent step from \<open>w = [0, 0]\<close> with
  \<open>eta = 0.01\<close> on that dataset yields exactly \<open>w = [0.045, 0.0275]\<close>, and the
  trajectory holds the initial \<open>w\<close> and this value.
\<close>

theorem batch_step_example:
  "batch_gradient_descent 1 0.01 [0, 0.5, 1] [1, 1.5, 2] (0, 0) =
     Inr ((0.045, 0.0275), [(0, 0), (0.045, 0.0275)])"
  by (simp add: batch_gradient_descent_def np_array_def copy_def isub_def np_array_of_def G_def
      residual_def broadcast_def py_sum_def smul_def vsub_def)

subsection \<open>C2: the gradient evaluator\<close>

text \<open>
  C2: for every \<open>w\<close> and all sequences \<open>xs\<close>, \<open>ys\<close> of equal length, \<open>G w xs ys\<close>
  returns the pair of \<open>-\<Sum> (y\<^sub>i - w\<^sub>0 - w\<^sub>1 * x\<^sub>i)\<close> and
  \<open>-\<Sum> (y\<^sub>i - w\<^sub>0 - w\<^sub>1 * x\<^sub>i) * x\<^sub>i\<close>; \<open>L w xs ys\<close> is
  \<open>1/2 * \<Sum> (y\<^sub>i - w\<^sub>0 - w\<^sub>1 * x\<^sub>i)\<^sup>2\<close>; and the two entries of \<open>G\<close> are the partial
  derivatives of \<open>L\<close> in \<open>w\<^sub>0\<close> and in \<open>w\<^sub>1\<close> at \<open>w\<close>, that is, \<open>G\<close> is the gradient
  of \<open>L\<close>. (The claim asks for non-empty sequences; the statement holds for empty
  ones as well.)
\<close>

theorem G_is_gradient_of_L:
  assumes "length xs = length ys"
  shows "G w xs ys = Inr (- (\<Sum>i<length xs. ys ! i - fst w - snd w * xs ! i),
                          - (\<Sum>i<length xs. (ys ! i - fst w - snd w * xs ! i) * xs ! i)) \<and>
         L w xs ys = Inr (1 / 2 * (\<Sum>i<length xs. (ys ! i - fst w - snd w * xs ! i) ^ 2)) \<and>
         ((\<lambda>a. projr (L (a, snd w) xs ys)) has_field_derivative
            fst (projr (G w xs ys))) (at (fst w)) \<and>
         ((\<lambda>b. projr (L (fst w, b) xs ys)) has_field_derivative
            snd (projr (G w xs ys))) (at (snd w))"
proof -
  note g = G_same_length [OF assms, of w]
  note l = L_same_length [OF assms]
  have d0: "((\<lambda>a. projr (L (a, snd w) xs ys)) has_field_derivative
      fst (projr (G w xs ys))) (at (fst w))"
    using L_partial_w0 [where n = "length xs" and y = "\<lambda>i. ys ! i" and x = "\<lambda>i. xs ! i"
        and ?w1.0 = "snd w" and ?w0.0 = "fst w"]
    by (simp add: g l)
  have d1: "((\<lambda>b. projr (L (fst w, b) xs ys)) has_field_derivative
      snd (projr (G w xs ys))) (at (snd w))"
    using L_partial_w1 [where n = "length xs" and y = "\<lambda>i. ys ! i" and x = "\<lambda>i. xs ! i"
        and ?w1.0 = "snd w" and ?w0.0 = "fst w"]
    by (simp add: g l)
  from g l [of w] d0 d1 show ?thesis by blast
qed

text \<open>The witness of C2: the statement at the three-point dataset of C1 and \<open>w = [0, 0]\<close>.\<close>

theorem G_is_gradient_of_L_witness:
  "length [0, 0.5, 1 :: real] = length [1, 1.5, 2 :: real] \<and>
   G (0, 0) [0, 0.5, 1] [1, 1.5, 2] = Inr (- 4.5, - 2.75) \<and>
   L (0, 0) [0, 0.5, 1] [1, 1.5, 2] = Inr 3.625 \<and>
   ((\<lambda>a. projr (L (a, 0) [0, 0.5, 1] [1, 1.5, 2])) has_field_derivative - 4.5) (at 0) \<and>
   ((\<lambda>b. projr (L (0, b) [0, 0.5, 1] [1, 1.5, 2])) has_field_derivative - 2.75) (at 0)"
proof -
  have h: "length [0, 0.5, 1 :: real] = length [1, 1.5, 2 :: real]" by simp
  have s: "{..<3} = {0, 1, 2 :: nat}" by auto
  note t = G_is_gradient_of_L [OF h, of "(0, 0)"]
  from t have g: "G (0, 0) [0, 0.5, 1] [1, 1.5, 2] = Inr (- 4.5, - 2.75)"
    by (simp add: s)
  from t have l: "L (0, 0) [0, 0.5, 1] [1, 1.5, 2] = Inr 3.625"
    by (simp add: s power2_eq_square)
  note d0 = t [THEN conjunct2, THEN conjunct2, THEN conjunct1]
  note d1 = t [THEN conjunct2, THEN conjunct2, THEN conjunct2]
  have g': "fst (projr (G (0, 0) [0, 0.5, 1] [1, 1.5, 2])) = - 4.5"
    "snd (projr (G (0, 0) [0, 0.5, 1] [1, 1.5, 2])) = - 2.75"
    using g by simp_all
  have "((\<lambda>a. projr (L (a, 0) [0, 0.5, 1] [1, 1.5, 2])) has_field_derivative - 4.5) (at 0)"
    and "((\<lambda>b. projr (L (0, b) [0, 0.5, 1] [1, 1.5, 2])) has_field_derivative - 2.75) (at 0)"
    using d0 [unfolded g' fst_conv snd_conv] d1 [unfolded g' fst_conv snd_conv] by blast+
  with h g l show ?thesis by blast
qed

subsection \<open>C3: the batch update rule\<close>

text \<open>
  C3: on a dataset whose two sequences have equal length, the batch loop started from any
  \<open>w0\<close> and run for \<open>k\<close> iterations returns; its trajectory holds \<open>k + 1\<close> entries,
  the first is \<open>w0\<close>, every next one is the one before minus \<open>eta\<close> times the gradient
  over the entire dataset at the one before, and the last is the final \<open>w\<close>.
\<close>

theorem batch_trajectory:
  assumes "length x = length y"
  shows "\<exists>w_end tr. batch_gradient_descent k eta x y w0 = Inr (w_end, tr) \<and>
           length tr = k + 1 \<and> tr ! 0 = w0 \<and> w_end = tr ! k \<and>
           (\<forall>i<k. \<exists>g. G (tr ! i) x y = Inr g \<and> tr ! (i + 1) = vsub (tr ! i) (smul eta g))"
proof -
  have tot: "\<exists>r. batch_body eta x y wv a j = Inr r" for wv a j
    by (simp add: batch_body_def G_same_length [OF assms])
  have "\<exists>r. steps_v (batch_body eta x y) (replicate k ()) (w0, [w0], ()) = Inr r"
    by (rule steps_v_total) (rule tot)
  then obtain r0 where r0: "steps_v (batch_body eta x y) (replicate k ()) (w0, [w0], ()) = Inr r0"
    by (elim exE) (rule that)
  obtain w_end tr a where "r0 = (w_end, tr, a)" by (rule prod_cases3)
  with r0 have
    r: "steps_v (batch_body eta x y) (replicate k ()) (w0, [w0], ()) = Inr (w_end, tr, a)"
    by simp
  from steps_v_shape [OF r] obtain new where n: "tr = [w0] @ new" "length new = k"
      "w_end = last (w0 # new)"
      "\<forall>i<k. \<exists>a1 a2. batch_body eta x y ((w0 # new) ! i) a1 (replicate k () ! i) = Inr (new ! i, a2)"
    by auto
  have step: "\<exists>g. G (tr ! i) x y = Inr g \<and> tr ! (i + 1) = vsub (tr ! i) (smul eta g)" if "i < k" for i
  proof -
    from n(4) that obtain a1 a2 where
      "batch_body eta x y ((w0 # new) ! i) a1 (replicate k () ! i) = Inr (new ! i, a2)"
      by blast
    then show ?thesis using n(1)
      by (auto simp: batch_body_def split: sum.splits)
  qed
  have "w_end = tr ! k" using n(1,2,3) by (simp add: last_conv_nth del: last.simps)
  moreover have "batch_gradient_descent k eta x y w0 = Inr (w_end, tr)"
    using r by (simp add: batch_gradient_descent_values batch_values_def)
  ultimately show ?thesis using n(1,2) step by auto
qed

text \<open>The witness of C3: two iterations on the three-point dataset.\<close>

theorem batch_trajectory_witness:
  "length [0, 0.5, 1 :: real] = length [1, 1.5, 2 :: real] \<and>
   (\<exists>w_end tr. batch_gradient_descent 2 0.01 [0, 0.5, 1] [1, 1.5, 2] (0, 0) = Inr (w_end, tr) \<and>
      length tr = 3 \<and> tr ! 0 = (0, 0) \<and> w_end = tr ! 2 \<and>
      (\<exists>g. G (tr ! 1) [0, 0.5, 1] [1, 1.5, 2] = Inr g \<and> tr ! 2 = vsub (tr ! 1) (smul 0.01 g)))"
proof -
  have h: "length [0, 0.5, 1 :: real] = length [1, 1.5, 2 :: real]" by simp
  from batch_trajectory [OF h, of 2 "0.01" "(0, 0)"] obtain w_end tr where
    r: "batch_gradient_descent 2 0.01 [0, 0.5, 1] [1, 1.5, 2] (0, 0) = Inr (w_end, tr)"
      "length tr = 2 + 1" "tr ! 0 = (0, 0)" "w_end = tr ! 2"
    and st: "\<forall>i<2. \<exists>g. G (tr ! i) [0, 0.5, 1] [1, 1.5, 2] = Inr g \<and>
               tr ! (i + 1) = vsub (tr ! i) (smul 0.01 g)"
    by blast
  from st [rule_format, of 1]
  have "\<exists>g. G (tr ! 1) [0, 0.5, 1] [1, 1.5, 2] = Inr g \<and> tr ! 2 = vsub (tr ! 1) (smul 0.01 g)"
    by (simp add: numeral_2_eq_2)
  with r have "batch_gradient_descent 2 0.01 [0, 0.5, 1] [1, 1.5, 2] (0, 0) = Inr (w_end, tr) \<and>
      length tr = 3 \<and> tr ! 0 = (0, 0) \<and> w_end = tr ! 2 \<and>
      (\<exists>g. G (tr ! 1) [0, 0.5, 1] [1, 1.5, 2] = Inr g \<and> tr ! 2 = vsub (tr ! 1) (smul 0.01 g))"
    by simp
  then have "\<exists>w_end tr. batch_gradient_descent 2 0.01 [0, 0.5, 1] [1, 1.5, 2] (0, 0) = Inr (w_end, tr) \<and>
      length tr = 3 \<and> tr ! 0 = (0, 0) \<and> w_end = tr ! 2 \<and>
      (\<exists>g. G (tr ! 1) [0, 0.5, 1] [1, 1.5, 2] = Inr g \<and> tr ! 2 = vsub (tr ! 1) (smul 0.01 g))"
    by blast
  with h show ?thesis by blast
qed

subsection \<open>C4: the stochastic update rule\<close>

text \<open>
  C4: let every draw of the random source be a permutation of the indices of \<open>x\<close>, and
  let \<open>y\<close> be at least as long as \<open>x\<close>. Then a stochastic run of \<open>n\<close> epochs over
  \<open>m = length x\<close> points returns. Epoch \<open>e\<close> uses the draw the generator makes after
  the \<open>e\<close> draws of the epochs before it (a new draw every epoch, a permutation of all
  indices); at step \<open>k\<close> of the epoch it takes the point \<open>j\<close> at place \<open>k\<close> of that
  draw and updates \<open>w\<close> to \<open>w - eta * G(w, [x\<^sub>j], [y\<^sub>j])\<close>. The per-step trajectory
  holds the initial \<open>w\<close> and \<open>w\<close> after every step, \<open>n * m + 1\<close> entries; the epoch
  trajectory holds the initial \<open>w\<close> and \<open>w\<close> at the end of every epoch, \<open>n + 1\<close>
  entries.
\<close>

theorem sgd_trajectory:
  assumes perm: "\<forall>g. permutes (fst (choice g (length x))) (length x)"
    and len: "length x \<le> length y"
  shows "\<exists>w_end sv ev rng'.
     stochastic_gradient_descent choice rng n eta x y w0 = Inr (w_end, sv, ev, rng') \<and>
     length sv = n * length x + 1 \<and> length ev = n + 1 \<and>
     sv ! 0 = w0 \<and> ev ! 0 = w0 \<and> w_end = sv ! (n * length x) \<and>
     rng' = rng_after choice (length x) rng n \<and>
     (\<forall>e<n. permutes (draw choice (length x) rng e) (length x) \<and>
        ev ! (e + 1) = sv ! ((e + 1) * length x) \<and>
        (\<forall>k<length x. \<exists>g.
           G (sv ! (e * length x + k))
             [x ! (draw choice (length x) rng e ! k)] [y ! (draw choice (length x) rng e ! k)] = Inr g \<and>
           sv ! (e * length x + k + 1) = vsub (sv ! (e * length x + k)) (smul eta g)))"
proof -
  let ?m = "length x"
  let ?body = "sgd_body eta x y"
  have lens: "length (fst (choice g ?m)) = ?m" for g
    using perm by (simp add: permutes_length)
  have tot: "\<exists>r. ?body wv a j = Inr r" if "j \<in> set (fst (choice g ?m))" for g wv a j
  proof -
    from perm that have "j < ?m" by (auto simp: permutes_def)
    with len sgd_body_in_range [of j x y wv eta a] show ?thesis by auto
  qed
  have "\<exists>r. epochs_v choice ?body ?m n (w0, [w0], [w0], (), rng) = Inr r"
    by (rule epochs_v_total) (rule tot)
  then obtain r0 where r0: "epochs_v choice ?body ?m n (w0, [w0], [w0], (), rng) = Inr r0"
    by (elim exE) (rule that)
  obtain w_end sv ev a rng' where "r0 = (w_end, sv, ev, a, rng')" by (rule prod_cases5)
  with r0 have
    r: "epochs_v choice ?body ?m n (w0, [w0], [w0], (), rng) = Inr (w_end, sv, ev, a, rng')"
    by simp
  from epochs_v_shape [OF lens r] obtain new newe where s':
    "sv = [w0] @ new \<and> ev = [w0] @ newe \<and> length new = n * ?m \<and> length newe = n \<and>
      w_end = last (w0 # new) \<and> rng' = rng_after choice ?m rng n \<and>
      (\<forall>e<n. newe ! e = (w0 # new) ! ((e + 1) * ?m)) \<and>
      (\<forall>e<n. \<forall>k<?m. \<exists>a1 a2.
          ?body ((w0 # new) ! (e * ?m + k)) a1 (draw choice ?m rng e ! k) = Inr (new ! (e * ?m + k), a2))"
    by (elim exE) (rule that)
  then have s: "sv = w0 # new" "ev = w0 # newe" "length new = n * ?m" "length newe = n"
      "w_end = last (w0 # new)" "rng' = rng_after choice ?m rng n"
      "\<And>e. e < n \<Longrightarrow> newe ! e = (w0 # new) ! ((e + 1) * ?m)"
      "\<And>e k. e < n \<Longrightarrow> k < ?m \<Longrightarrow> \<exists>a1 a2.
          ?body ((w0 # new) ! (e * ?m + k)) a1 (draw choice ?m rng e ! k) = Inr (new ! (e * ?m + k), a2)"
    by simp_all
  have run: "stochastic_gradient_descent choice rng n eta x y w0 = Inr (w_end, sv, ev, rng')"
    using r by (simp add: stochastic_gradient_descent_values sgd_values_def run_of_def)
  have last: "w_end = sv ! (n * ?m)"
    using s(1,3,5) by (simp add: last_conv_nth del: last.simps)
  have epoch: "permutes (draw choice ?m rng e) ?m \<and> ev ! (e + 1) = sv ! ((e + 1) * ?m) \<and>
        (\<forall>k<?m. \<exists>g.
           G (sv ! (e * ?m + k)) [x ! (draw choice ?m rng e ! k)] [y ! (draw choice ?m rng e ! k)] = Inr g \<and>
           sv ! (e * ?m + k + 1) = vsub (sv ! (e * ?m + k)) (smul eta g))"
    if e: "e < n" for e
  proof -
    have p: "permutes (draw choice ?m rng e) ?m"
      using perm by (rule draw_permutes)
    have step: "\<exists>g. G (sv ! (e * ?m + k)) [x ! (draw choice ?m rng e ! k)]
             [y ! (draw choice ?m rng e ! k)] = Inr g \<and>
           sv ! (e * ?m + k + 1) = vsub (sv ! (e * ?m + k)) (smul eta g)"
      if k: "k < ?m" for k
    proof -
      let ?j = "draw choice ?m rng e ! k"
      from permutes_nth [OF p k] len have j: "?j < length x" "?j < length y" by simp_all
      from s(8) [OF e k] obtain a1 a2 where
        b: "?body ((w0 # new) ! (e * ?m + k)) a1 ?j = Inr (new ! (e * ?m + k), a2)"
        by blast
      from sgd_body_in_range [OF j, of "(w0 # new) ! (e * ?m + k)" eta a1] b
      show ?thesis using s(1) by auto
    qed
    from s(7) [OF e] s(1,2) have "ev ! (e + 1) = sv ! ((e + 1) * ?m)" by simp
    with p step show ?thesis by blast
  qed
  have "stochastic_gradient_descent choice rng n eta x y w0 = Inr (w_end, sv, ev, rng') \<and>
     length sv = n * ?m + 1 \<and> length ev = n + 1 \<and>
     sv ! 0 = w0 \<and> ev ! 0 = w0 \<and> w_end = sv ! (n * ?m) \<and>
     rng' = rng_after choice ?m rng n \<and>
     (\<forall>e<n. permutes (draw choice ?m rng e) ?m \<and>
        ev ! (e + 1) = sv ! ((e + 1) * ?m) \<and>
        (\<forall>k<?m. \<exists>g.
           G (sv ! (e * ?m + k)) [x ! (draw choice ?m rng e ! k)] [y ! (draw choice ?m rng e ! k)] = Inr g \<and>
           sv ! (e * ?m + k + 1) = vsub (sv ! (e * ?m + k)) (smul eta g)))"
    using run last s(1,2,3,4,6) epoch by simp
  then show ?thesis by (intro exI)
qed

text \<open>
  The witness of C4: two epochs over the two points \<open>(0, 1)\<close> and \<open>(1, 2)\<close> with the
  rotating generator, whose draws are permutations.
\<close>

theorem sgd_trajectory_witness:
  "(\<forall>g. permutes (fst (rotating_choice g (length [0, 1 :: real]))) (length [0, 1 :: real])) \<and>
   length [0, 1 :: real] \<le> length [1, 2 :: real] \<and>
   (\<exists>w_end sv ev rng'.
      stochastic_gradient_descent rotating_choice 1 2 0.1 [0, 1] [1, 2] (0, 0) =
        Inr (w_end, sv, ev, rng') \<and>
      length sv = 5 \<and> length ev = 3 \<and> sv ! 0 = (0, 0) \<and> ev ! 0 = (0, 0))"
proof -
  have p: "\<forall>g. permutes (fst (rotating_choice g (length [0, 1 :: real]))) (length [0, 1 :: real])"
    by (simp add: rotating_choice_permutes)
  have l: "length [0, 1 :: real] \<le> length [1, 2 :: real]" by simp
  from sgd_trajectory [where choice = rotating_choice and x = "[0, 1]" and y = "[1, 2]"
      and rng = 1 and n = 2 and eta = "0.1" and ?w0.0 = "(0, 0)", OF p l]
  obtain w_end sv ev rng' where
    r: "stochastic_gradient_descent rotating_choice 1 2 0.1 [0, 1] [1, 2] (0, 0) =
          Inr (w_end, sv, ev, rng')"
      "length sv = 2 * length [0, 1 :: real] + 1" "length ev = 2 + 1"
      "sv ! 0 = (0, 0)" "ev ! 0 = (0, 0)"
    by blast
  then have "stochastic_gradient_descent rotating_choice 1 2 0.1 [0, 1] [1, 2] (0, 0) =
        Inr (w_end, sv, ev, rng') \<and>
      length sv = 5 \<and> length ev = 3 \<and> sv ! 0 = (0, 0) \<and> ev ! 0 = (0, 0)"
    by simp
  then have "\<exists>w_end sv ev rng'.
      stochastic_gradient_descent rotating_choice 1 2 0.1 [0, 1] [1, 2] (0, 0) =
        Inr (w_end, sv, ev, rng') \<and>
      length sv = 5 \<and> length ev = 3 \<and> sv ! 0 = (0, 0) \<and> ev ! 0 = (0, 0)"
    by (intro exI)
  with p l show ?thesis by (intro conjI)
qed

subsection \<open>C5: momentum 0 is the stochastic rule\<close>

text \<open>
  C5: with the momentum coefficient 0 the momentum cell returns what the stochastic cell
  returns, for the same random source, generator state, epoch count, learning rate,
  dataset and initial \<open>w\<close>: the same final \<open>w\<close>, per-step trajectory, epoch trajectory
  and generator state, or the same error. The inner loops agree as well on every store,
  every sequence \<open>js\<close> of sampled points and every value of \<open>delta_w\<close> they start
  from.
\<close>

theorem momentum_zero_is_sgd:
  "momentum_gradient_descent choice rng n eta 0 x y w0 =
     stochastic_gradient_descent choice rng n eta x y w0 \<and>
   map_sum (\<lambda>e. e) (\<lambda>(h', w_momen, delta_w'). (h', w_momen))
       (momentum_inner eta 0 x y w js (h, tr, delta_w)) =
     sgd_inner eta x y w js (h, tr)"
proof
  obtain h0 w where a: "np_array [] w0 = (h0, w)" by (cases "np_array [] w0")
  obtain h1 c1 where b: "copy h0 w = (h1, c1)" by (cases "copy h0 w")
  obtain h2 c2 where c: "copy h1 w = (h2, c2)" by (cases "copy h1 w")
  note e = momentum_zero_epochs [of choice n eta x y w h2 "[c1]" "[c2]" "(0, 0)" rng]
  show "momentum_gradient_descent choice rng n eta 0 x y w0 =
     stochastic_gradient_descent choice rng n eta x y w0"
  proof (cases "momentum_epochs choice n eta 0 x y w (h2, [c1], [c2], (0, 0), rng)")
    case (Inl err)
    with e have "sgd_epochs choice n eta x y w (h2, [c1], [c2], rng) = Inl err" by simp
    with Inl a b c show ?thesis
      by (simp add: momentum_gradient_descent_def stochastic_gradient_descent_def)
  next
    case (Inr p)
    obtain h' tr' ep' d' g' where p: "p = (h', tr', ep', d', g')" by (rule prod_cases5)
    with e Inr have "sgd_epochs choice n eta x y w (h2, [c1], [c2], rng) = Inr (h', tr', ep', g')"
      by simp
    with Inr p a b c show ?thesis
      by (simp add: momentum_gradient_descent_def stochastic_gradient_descent_def)
  qed
next
  show "map_sum (\<lambda>e. e) (\<lambda>(h', w_momen, delta_w'). (h', w_momen))
       (momentum_inner eta 0 x y w js (h, tr, delta_w)) =
     sgd_inner eta x y w js (h, tr)"
    by (rule momentum_zero_inner)
qed

subsection \<open>C6: the first RMSprop step\<close>

text \<open>
  C6: let the coefficient \<open>momentum\<close> be at most 1 (the spec allows \<open>[0, 1)\<close>) and let
  \<open>j\<close> be an index of both sequences. In the first RMSprop step, from \<open>g2 = 0\<close>, the
  denominator \<open>np.sqrt(g2) + 1e-8\<close> of the update is, entry by entry,
  \<open>sqrt ((1 - momentum) * gradient\<^sup>2) + 1e-8\<close>; both entries are positive; so the
  division is defined, and the step does not end in \<open>NotFinite\<close>: it updates \<open>w\<close> by
  \<open>eta * gradient / denominator\<close> and appends the copy.
\<close>

theorem rmsprop_first_step:
  assumes "momentum \<le> 1" and "j < length x" and "j < length y"
  shows "\<exists>gradient d u.
     G (h ! w) [x ! j] [y ! j] = Inr gradient \<and>
     rms_denominator (rms_g2 momentum (0, 0) gradient) = Inr d \<and>
     d = (sqrt ((1 - momentum) * (fst gradient)\<^sup>2) + 1 / 10 ^ 8,
          sqrt ((1 - momentum) * (snd gradient)\<^sup>2) + 1 / 10 ^ 8) \<and>
     0 < fst d \<and> 0 < snd d \<and>
     rms_update eta gradient (rms_g2 momentum (0, 0) gradient) = Inr u \<and>
     u = (eta * fst gradient / fst d, eta * snd gradient / snd d) \<and>
     rmsprop_inner eta momentum x y w [j] (h, w_momen, (0, 0)) =
       Inr (fst (copy (isub h w u) w), w_momen @ [snd (copy (isub h w u) w)],
            rms_g2 momentum (0, 0) gradient)"
proof -
  obtain gradient where g: "G (h ! w) [x ! j] [y ! j] = Inr gradient"
    by (simp add: G_single)
  let ?g2 = "rms_g2 momentum (0, 0) gradient"
  have nn: "0 \<le> fst ?g2" "0 \<le> snd ?g2"
    using assms(1) by (simp_all add: rms_g2_first)
  note d = rms_denominator_nonneg [OF nn]
  note u = rms_update_nonneg [OF nn, of eta gradient]
  let ?d = "(sqrt (fst ?g2) + 1 / 10 ^ 8, sqrt (snd ?g2) + 1 / 10 ^ 8)"
  let ?u = "(eta * fst gradient / fst ?d, eta * snd gradient / snd ?d)"
  have i: "rmsprop_inner eta momentum x y w [j] (h, w_momen, (0, 0)) =
       Inr (fst (copy (isub h w ?u) w), w_momen @ [snd (copy (isub h w ?u) w)], ?g2)"
    using assms(2,3) g u
    by (simp add: getitem_def Let_def split: prod.split)
  have "G (h ! w) [x ! j] [y ! j] = Inr gradient \<and>
     rms_denominator ?g2 = Inr ?d \<and>
     ?d = (sqrt ((1 - momentum) * (fst gradient)\<^sup>2) + 1 / 10 ^ 8,
          sqrt ((1 - momentum) * (snd gradient)\<^sup>2) + 1 / 10 ^ 8) \<and>
     0 < fst ?d \<and> 0 < snd ?d \<and>
     rms_update eta gradient ?g2 = Inr ?u \<and>
     ?u = (eta * fst gradient / fst ?d, eta * snd gradient / snd ?d) \<and>
     rmsprop_inner eta momentum x y w [j] (h, w_momen, (0, 0)) =
       Inr (fst (copy (isub h w ?u) w), w_momen @ [snd (copy (isub h w ?u) w)], ?g2)"
    using g d u i by (simp add: rms_g2_first)
  then show ?thesis by blast
qed

text \<open>
  The witness of C6: \<open>momentum = 0.9\<close> and the second point of the three-point
  dataset.
\<close>

theorem rmsprop_first_step_witness:
  "(0.9 :: real) \<le> 1 \<and> (1 :: nat) < length [0, 0.5, 1 :: real] \<and> 1 < length [1, 1.5, 2 :: real] \<and>
   (\<exists>gradient d.
      G ([(0, 0)] ! 0) [[0, 0.5, 1] ! 1] [[1, 1.5, 2] ! 1] = Inr gradient \<and>
      rms_denominator (rms_g2 0.9 (0, 0) gradient) = Inr d \<and> 0 < fst d \<and> 0 < snd d)"
proof -
  have a: "(0.9 :: real) \<le> 1" by simp
  have b: "(1 :: nat) < length [0, 0.5, 1 :: real]" by simp
  have c: "(1 :: nat) < length [1, 1.5, 2 :: real]" by simp
  from rmsprop_first_step [OF a b c, of "[(0, 0)]" 0 "0.0001" "[]"]
  have "\<exists>gradient d.
      G ([(0, 0)] ! 0) [[0, 0.5, 1] ! 1] [[1, 1.5, 2] ! 1] = Inr gradient \<and>
      rms_denominator (rms_g2 0.9 (0, 0) gradient) = Inr d \<and> 0 < fst d \<and> 0 < snd d"
    by blast
  with a b c show ?thesis by blast
qed

subsection \<open>C7: malformed shapes\<close>

text \<open>
  C7, as stated, fails: \<open>G\<close> does not fail on empty sequences (it returns \<open>[0, 0]\<close>), and
  it does not fail when the lengths differ and one of them is 1 (numpy broadcasts the
  single entry): for \<open>xs = [2]\<close> and \<open>ys = [1, 3]\<close> it returns \<open>[-4, -8]\<close>.
\<close>

theorem G_accepts_malformed_shapes:
  "G (0, 0) [] [] = Inr (0, 0) \<and> G (0, 0) [2] [1, 3] = Inr (- 4, - 8)"
  by (simp add: G_def residual_def broadcast_def py_sum_def)

text \<open>
  C7, amended: \<open>G\<close> is a function of its three arguments alone. It fails exactly when
  \<open>xs\<close> and \<open>ys\<close> differ in length and neither has length 1, and then with
  \<open>ValueError\<close>. On two empty sequences it returns \<open>[0, 0]\<close>. A sequence of length
  1 is stretched to the length of the other one: the result is that of the stretched
  dataset.
\<close>

theorem G_failure_cases:
  "(G w xs ys = Inl ValueError \<longleftrightarrow> length xs \<noteq> length ys \<and> length xs \<noteq> 1 \<and> length ys \<noteq> 1) \<and>
   (isl (G w xs ys) \<longleftrightarrow> G w xs ys = Inl ValueError) \<and>
   G w [] [] = Inr (0, 0) \<and>
   G w [a] ys = G w (replicate (length ys) a) ys \<and>
   G w xs [b] = G w xs (replicate (length xs) b)"
proof -
  have "isl (G w xs ys) \<longleftrightarrow> G w xs ys = Inl ValueError"
    by (cases "G w xs ys") (auto dest: G_error_is_ValueError)
  moreover have "G w [] [] = Inr (0, 0)"
    by (simp add: G_def residual_def broadcast_def py_sum_def)
  ultimately show ?thesis
    using G_fails_iff [of w xs ys] G_stretch_x [of w a ys] G_stretch_y [of w xs b] by blast
qed

subsection \<open>C8: a small step does not increase the loss\<close>

text \<open>
  C8: for sequences of equal length and every \<open>w\<close>, the gradient \<open>g\<close> and the loss
  \<open>l0\<close> at \<open>w\<close> are defined, and there is a threshold \<open>t > 0\<close> such that for every
  learning rate \<open>0 < eta < t\<close> the loss at \<open>w - eta * g\<close> is at most \<open>l0\<close>. (The
  claim asks for a non-zero gradient; the statement holds for a zero gradient as well.)
  The loss along the step is
  \<open>l0 - eta * |g|\<^sup>2 + eta\<^sup>2 / 2 * \<Sum> (g\<^sub>0 + g\<^sub>1 * x\<^sub>i)\<^sup>2\<close>.
\<close>

theorem small_step_does_not_increase_loss:
  assumes "length xs = length ys"
  shows "\<exists>g l0 t. G w xs ys = Inr g \<and> L w xs ys = Inr l0 \<and> 0 < t \<and>
           (\<forall>eta. 0 < eta \<and> eta < t \<longrightarrow>
              (\<exists>l1. L (vsub w (smul eta g)) xs ys = Inr l1 \<and> l1 \<le> l0))"
proof -
  let ?n = "length xs"
  let ?x = "\<lambda>i. xs ! i" and ?y = "\<lambda>i. ys ! i"
  let ?g0 = "- (\<Sum>i<?n. ys ! i - fst w - snd w * xs ! i)"
  let ?g1 = "- (\<Sum>i<?n. (ys ! i - fst w - snd w * xs ! i) * xs ! i)"
  let ?l0 = "1 / 2 * (\<Sum>i<?n. (ys ! i - fst w - snd w * xs ! i)\<^sup>2)"
  note g = G_same_length [OF assms, of w]
  note l = L_same_length [OF assms]
  from small_step_bound [where q = "\<lambda>i. ?g0 + ?g1 * xs ! i" and ?g0.0 = ?g0 and ?g1.0 = ?g1
      and x = ?x and n = ?n]
  obtain t where t: "0 < t"
    and b: "\<And>eta. 0 < eta \<Longrightarrow> eta < t \<Longrightarrow>
      - eta * (?g0\<^sup>2 + ?g1\<^sup>2) + eta\<^sup>2 / 2 * (\<Sum>i<?n. (?g0 + ?g1 * xs ! i)\<^sup>2) \<le> 0"
    by auto
  have "\<exists>l1. L (vsub w (smul eta (?g0, ?g1))) xs ys = Inr l1 \<and> l1 \<le> ?l0"
    if "0 < eta" "eta < t" for eta
  proof -
    have e: "1 / 2 * (\<Sum>i<?n. (ys ! i - (fst w - eta * ?g0) - (snd w - eta * ?g1) * xs ! i)\<^sup>2) =
        ?l0 - eta * (?g0\<^sup>2 + ?g1\<^sup>2) + eta\<^sup>2 / 2 * (\<Sum>i<?n. (?g0 + ?g1 * xs ! i)\<^sup>2)"
      by (rule loss_after_step [where ?g0.0 = ?g0 and ?g1.0 = ?g1 and n = ?n and y = ?y and x = ?x
            and ?w0.0 = "fst w" and ?w1.0 = "snd w" and eta = eta]) simp_all
    have "L (vsub w (smul eta (?g0, ?g1))) xs ys =
        Inr (1 / 2 * (\<Sum>i<?n. (ys ! i - (fst w - eta * ?g0) - (snd w - eta * ?g1) * xs ! i)\<^sup>2))"
      by (simp add: l vsub_def smul_def)
    moreover have "1 / 2 * (\<Sum>i<?n. (ys ! i - (fst w - eta * ?g0) - (snd w - eta * ?g1) * xs ! i)\<^sup>2)
        \<le> ?l0"
      unfolding e using b [OF that] by simp
    ultimately show ?thesis by blast
  qed
  with g l [of w] t show ?thesis by blast
qed

text \<open>The witness of C8: the three-point dataset and \<open>w = [0, 0]\<close>.\<close>

theorem small_step_does_not_increase_loss_witness:
  "length [0, 0.5, 1 :: real] = length [1, 1.5, 2 :: real] \<and>
   (\<exists>g l0 t. G (0, 0) [0, 0.5, 1] [1, 1.5, 2] = Inr g \<and> L (0, 0) [0, 0.5, 1] [1, 1.5, 2] = Inr l0 \<and>
      0 < t \<and>
      (\<forall>eta. 0 < eta \<and> eta < t \<longrightarrow>
         (\<exists>l1. L (vsub (0, 0) (smul eta g)) [0, 0.5, 1] [1, 1.5, 2] = Inr l1 \<and> l1 \<le> l0)))"
proof -
  have h: "length [0, 0.5, 1 :: real] = length [1, 1.5, 2 :: real]" by simp
  from h small_step_does_not_increase_loss [OF h, of "(0, 0)"] show ?thesis by (intro conjI)
qed

subsection \<open>C9: the dataset\<close>

text \<open>
  C9 says \<open>y\<^sub>i = x\<^sub>i + noise\<^sub>i + 1.0\<close> with \<open>noise\<^sub>i\<close> the standard-normal draw, as
  the cell's own comment does (\<open>sd=1\<close>). The cell multiplies the draw by \<open>0.1\<close>:
  when every draw is \<open>1\<close>, \<open>y\<^sub>i\<close> is \<open>x\<^sub>i + 0.1 + 1\<close>, not \<open>x\<^sub>i + 1 + 1\<close>. The
  \<open>x\<^sub>i\<close> are the 21 points \<open>i / 20\<close>.
\<close>

theorem dataset_scales_noise:
  "dataset (\<lambda>rng n. (replicate n 1, rng)) () =
     Inr (map (\<lambda>i. real i / 20) [0..<21], map (\<lambda>i. real i / 20 + 0.1 + 1) [0..<21], ())"
proof -
  have "broadcast (+) (linspace 0 1 21) (map (\<lambda>v. v * (1 / 10)) (replicate 21 1)) =
      Inr (map (\<lambda>i. real i / 20 + 0.1) [0..<21])"
    by (auto simp: broadcast_def linspace_def intro!: nth_equalityI)
  then show ?thesis
    by (simp add: dataset_def linspace_def o_def)
qed

subsection \<open>C10: the epoch trajectory inside the per-step trajectory\<close>

text \<open>
  C10: let every draw have as many indices as \<open>x\<close> has points, \<open>m\<close>, and let \<open>run\<close>
  be a stochastic, a momentum or an RMSprop run of \<open>n\<close> epochs that returns. Then the
  per-step trajectory has \<open>n * m + 1\<close> entries, the epoch trajectory \<open>n + 1\<close>, entry
  \<open>e\<close> of the epoch trajectory is entry \<open>e * m\<close> of the per-step trajectory for every
  \<open>e\<close> from 0 to \<open>n\<close>, and the final \<open>w\<close> is the last entry. The snapshots are
  copies that the later updates of \<open>w\<close> do not touch: each cell, which updates the one
  array \<open>w\<close> in place and reads the recorded arrays only at its end, returns what the
  same loop returns on values, where a recorded value cannot change.
\<close>

theorem epoch_trajectory_is_subsequence:
  assumes len: "\<forall>g. length (fst (choice g (length x))) = length x"
    and run: "run = stochastic_gradient_descent choice rng n eta x y w0 \<or>
              run = momentum_gradient_descent choice rng n eta momentum x y w0 \<or>
              run = rmsprop choice rng n eta momentum x y w0"
    and res: "run = Inr (w_end, sv, ev, rng')"
  shows "length sv = n * length x + 1 \<and> length ev = n + 1 \<and>
         (\<forall>e\<le>n. ev ! e = sv ! (e * length x)) \<and> w_end = sv ! (n * length x) \<and>
         stochastic_gradient_descent choice rng n eta x y w0 = sgd_values choice rng n eta x y w0 \<and>
         momentum_gradient_descent choice rng n eta momentum x y w0 =
           momentum_values choice rng n eta momentum x y w0 \<and>
         rmsprop choice rng n eta momentum x y w0 = rmsprop_values choice rng n eta momentum x y w0"
proof -
  have a: "length sv = n * length x + 1 \<and> length ev = n + 1 \<and>
         (\<forall>e\<le>n. ev ! e = sv ! (e * length x)) \<and> w_end = sv ! (n * length x)"
    using run
  proof (elim disjE)
    assume "run = stochastic_gradient_descent choice rng n eta x y w0"
    with res have "sgd_values choice rng n eta x y w0 = Inr (w_end, sv, ev, rng')"
      by (simp add: stochastic_gradient_descent_values)
    then show ?thesis unfolding sgd_values_def by (rule epochs_v_aligned [where choice = choice and m = "length x", OF len])
  next
    assume "run = momentum_gradient_descent choice rng n eta momentum x y w0"
    with res have "momentum_values choice rng n eta momentum x y w0 = Inr (w_end, sv, ev, rng')"
      by (simp add: momentum_gradient_descent_values)
    then show ?thesis unfolding momentum_values_def by (rule epochs_v_aligned [where choice = choice and m = "length x", OF len])
  next
    assume "run = rmsprop choice rng n eta momentum x y w0"
    with res have "rmsprop_values choice rng n eta momentum x y w0 = Inr (w_end, sv, ev, rng')"
      by (simp add: rmsprop_values_eq)
    then show ?thesis unfolding rmsprop_values_def by (rule epochs_v_aligned [where choice = choice and m = "length x", OF len])
  qed
  show ?thesis
    using a stochastic_gradient_descent_values [of choice rng n eta x y w0]
      momentum_gradient_descent_values [of choice rng n eta momentum x y w0]
      rmsprop_values_eq [of choice rng n eta momentum x y w0]
    by (intro conjI) simp_all
qed

text \<open>
  The witness of C10: one epoch of the momentum cell over the two points \<open>(0, 1)\<close> and
  \<open>(1, 2)\<close>.
\<close>

theorem epoch_trajectory_is_subsequence_witness:
  "(\<forall>g. length (fst (rotating_choice g (length [0, 1 :: real]))) = length [0, 1 :: real]) \<and>
   momentum_gradient_descent rotating_choice 0 1 0.5 0.5 [0, 1] [1, 2] (0, 0) =
     Inr ((13 / 16, 7 / 16), [(0, 0), (1 / 4, 0), (13 / 16, 7 / 16)], [(0, 0), (13 / 16, 7 / 16)], 1) \<and>
   length ([(0, 0), (1 / 4, 0), (13 / 16, 7 / 16)] :: vec2 list) = 1 * length [0, 1 :: real] + 1 \<and>
   ([(0, 0), (13 / 16, 7 / 16)] :: vec2 list) ! 1 =
     [(0, 0), (1 / 4, 0), (13 / 16, 7 / 16)] ! (1 * length [0, 1 :: real]) \<and>
   momentum_gradient_descent rotating_choice 0 1 0.5 0.5 [0, 1] [1, 2] (0, 0) =
     momentum_values rotating_choice 0 1 0.5 0.5 [0, 1] [1, 2] (0, 0)"
proof -
  have len: "\<forall>g. length (fst (rotating_choice g (length [0, 1 :: real]))) = length [0, 1 :: real]"
    by (simp add: rotating_choice_def)
  have res: "momentum_gradient_descent rotating_choice 0 1 0.5 0.5 [0, 1] [1, 2] (0, 0) =
     Inr ((13 / 16, 7 / 16), [(0, 0), (1 / 4, 0), (13 / 16, 7 / 16)], [(0, 0), (13 / 16, 7 / 16)], 1)"
    by (simp add: momentum_gradient_descent_def np_array_def copy_def isub_def np_array_of_def
        G_def residual_def broadcast_def py_sum_def smul_def vsub_def vadd_def rotating_choice_def
        getitem_def numeral_2_eq_2 upt_rec)
  have run: "momentum_gradient_descent rotating_choice 0 1 0.5 0.5 [0, 1] [1, 2] (0, 0) =
         stochastic_gradient_descent rotating_choice 0 1 0.5 [0, 1] [1, 2] (0, 0) \<or>
       momentum_gradient_descent rotating_choice 0 1 0.5 0.5 [0, 1] [1, 2] (0, 0) =
         momentum_gradient_descent rotating_choice 0 1 0.5 0.5 [0, 1] [1, 2] (0, 0) \<or>
       momentum_gradient_descent rotating_choice 0 1 0.5 0.5 [0, 1] [1, 2] (0, 0) =
         rmsprop rotating_choice 0 1 0.5 0.5 [0, 1] [1, 2] (0, 0)"
    by simp
  note t = epoch_trajectory_is_subsequence [where choice = rotating_choice and x = "[0, 1]"
      and y = "[1, 2]" and rng = 0 and n = 1 and eta = "0.5" and momentum = "0.5"
      and ?w0.0 = "(0, 0)", OF len run res]
  from t have a: "length ([(0, 0), (1 / 4, 0), (13 / 16, 7 / 16)] :: vec2 list) = 1 * length [0, 1 :: real] + 1"
    by (rule conjunct1)
  have b: "([(0, 0), (13 / 16, 7 / 16)] :: vec2 list) ! 1 =
     [(0, 0), (1 / 4, 0), (13 / 16, 7 / 16)] ! (1 * length [0, 1 :: real])"
    using t [THEN conjunct2, THEN conjunct2, THEN conjunct1, rule_format, of 1] by simp
  have c: "momentum_gradient_descent rotating_choice 0 1 0.5 0.5 [0, 1] [1, 2] (0, 0) =
     momentum_values rotating_choice 0 1 0.5 0.5 [0, 1] [1, 2] (0, 0)"
    using t by blast
  from len res a b c show ?thesis by (intro conjI)
qed

end
